theory Spec2Isabelle
  imports Complex_Main "HOL-Library.Signed_Division" "HOL-Library.Log_Nat"
begin

section \<open>The character render system of midgarts\<close>

text \<open>
  A shallow embedding of \<^verbatim>\<open>internal/system/character_render_system.go\<close>:
  \<^verbatim>\<open>renderCharacter\<close>, \<^verbatim>\<open>renderAttachment\<close> and \<^verbatim>\<open>renderLayer\<close>.

  Conventions of the embedding.
  \<^item> Go's \<^verbatim>\<open>int\<close>, \<^verbatim>\<open>int32\<close> and \<^verbatim>\<open>int64\<close> are \<open>int\<close>. Go's \<^verbatim>\<open>/\<close> and \<^verbatim>\<open>%\<close> on
    integers truncate towards zero: they are \<open>sdiv\<close> and \<open>smod\<close>. A zero divisor
    panics in Go, so every division is guarded and the panic is a value.
    The sums and differences of this file (table indices, milliseconds) stay far
    inside 64 bits; their wrap-around is not modelled.
  \<^item> A finite value of a float type is the \<open>real\<close> it denotes; the fields of float type
    hold such values. The \<^verbatim>\<open>float64\<close> arithmetic of the animation clock is IEEE 754
    binary64: every operation rounds to the nearest value of the format, ties to even,
    and its result is \<open>None\<close> when it is an infinity or not a number.
    The conversion \<^verbatim>\<open>int64(x)\<close> of a float discards the fraction; when the value does
    not fit in 64 bits the Go specification leaves the result to the implementation,
    and the embedding takes the one of amd64, \<open>- 2 ^ 63\<close>.
    The \<^verbatim>\<open>float32\<close> arithmetic of the layer compositor is taken exact.
  \<^item> A slice is a list; an index outside the slice panics in Go, so every index is
    guarded and the panic is a value.
  \<^item> The receiver's mutable state (the character, the offset accumulator behind the
    pointer, the slice of render commands) is passed in and returned.
  \<^item> The wall clock read by \<^verbatim>\<open>time.Since\<close> is an argument, in nanoseconds.
\<close>

subsection \<open>Panics and fatal errors\<close>

datatype panic =
    IndexOutOfRange      \<comment> \<open>runtime error: index out of range\<close>
  | DivideByZero         \<comment> \<open>runtime error: integer divide by zero\<close>
  | NilDereference       \<comment> \<open>no files bound for the attachment\<close>
  | TextureError         \<comment> \<open>\<^verbatim>\<open>log.Fatal(err)\<close> after \<^verbatim>\<open>NewTextureFromRGBA\<close>\<close>

subsection \<open>Decoded assets\<close>

record ActionFrameLayer =
  SpriteFrameIndex :: int
  Scale :: "real \<times> real"
  Angle :: int
  Position :: "int \<times> int"
  Mirrored :: bool

record ActionFrame =
  Layers :: "ActionFrameLayer list"
  Positions :: "(int \<times> int) list"

record Action =
  Frames :: "ActionFrame list"
  Delay :: real
  DurationMilliseconds :: int

record ActionFile =
  Actions :: "Action list"

record SpriteFrame =
  Width :: int
  Height :: int
  Data :: "nat list"

record SpriteFile =
  SprFrames :: "SpriteFrame list"

record AttachmentFiles =
  ACT :: ActionFile
  SPR :: SpriteFile

subsection \<open>Entity state\<close>

datatype AttachmentType =
  AttachmentShadow | AttachmentShield | AttachmentBody | AttachmentHead

text \<open>
  Package \<^verbatim>\<open>actionplaymode\<close> is not among the sources; the render system names only
  \<^verbatim>\<open>Repeat\<close>. Every other play mode is \<open>OtherPlayMode n\<close>.
\<close>

datatype ActionPlayMode = Repeat | OtherPlayMode nat

record Character =
  HasShield :: bool
  ActionIndex :: int
  Direction :: int
  PlayMode :: ActionPlayMode
  FPSMultiplier :: real
  ForcedDuration :: int
  AnimationStartedAt :: int
  AnimationDelay :: int
  CharPosition :: "real \<times> real \<times> real"
  Files :: "AttachmentType \<Rightarrow> AttachmentFiles option"

subsection \<open>Render commands and the state of one tick\<close>

record SpriteRenderCommand =
  cmdScale :: "real \<times> real"
  cmdSize :: "real \<times> real"
  cmdPosition :: "real \<times> real \<times> real"
  cmdOffset :: "real \<times> real"
  RotationRadians :: real
  Texture :: nat
  FlipVertically :: bool

record RenderState =
  character :: Character
  offset :: "real \<times> real"
  sprite :: "SpriteRenderCommand list"

subsection \<open>Declarations outside the sources\<close>

text \<open>
  The packages \<^verbatim>\<open>directiontype\<close>, \<^verbatim>\<open>actionindex\<close> and \<^verbatim>\<open>graphic\<close> are not among the
  sources. What the render system takes from them is a parameter of every function
  below: the direction table, the three action kinds it compares with, the size of
  one pixel, and the texture provider (\<open>None\<close> when it returns an error).
\<close>

record Externals =
  DirectionTable :: "nat \<Rightarrow> int"
  StandBy :: int
  Dead :: int
  Sitting :: int
  OnePixelSize :: real
  NewTextureFromRGBA :: "SpriteFrame \<Rightarrow> nat option"

definition SpriteScaleFactor :: real where
  "SpriteScaleFactor = 100"

definition FixedCameraDirection :: nat where
  "FixedCameraDirection = 6"

subsection \<open>Conversions and sequencing\<close>

definition MinInt64 :: int where
  \<comment> \<open>\<^verbatim>\<open>math.MinInt64\<close>, also what amd64 returns for a float that does not fit\<close>
  "MinInt64 = - (2 ^ 63)"

definition int64 :: "int \<Rightarrow> int" where
  \<comment> \<open>\<^verbatim>\<open>int64(x)\<close> for an integer \<^verbatim>\<open>x\<close>\<close>
  "int64 x = signed_take_bit 63 x"

definition roundHalfEven :: "real \<Rightarrow> int" where
  \<comment> \<open>the nearest integer, the even one of two that are equally near\<close>
  "roundHalfEven y =
     (let f = \<lfloor>y\<rfloor>
      in if y - of_int f < 1 / 2 then f
         else if 1 / 2 < y - of_int f then f + 1
         else if even f then f else f + 1)"

definition binade :: "real \<Rightarrow> int" where
  \<comment> \<open>the exponent \<open>e\<close> with \<open>2 powi e \<le> \<bar>x\<bar> < 2 powi (e + 1)\<close>\<close>
  "binade x = \<lfloor>log 2 \<bar>x\<bar>\<rfloor>"

definition float64 :: "real \<Rightarrow> real option" where
  \<comment> \<open>rounding to binary64: 53 significant bits, the spacing \<open>2 powi (- 1074)\<close> of the
      subnormal numbers at the least, an infinity from \<open>2 ^ 1024\<close> on\<close>
  "float64 x =
     (if x = 0 then Some 0
      else
        let q = max (binade x - 52) (- 1074);
            r = of_int (roundHalfEven (x / 2 powi q)) * 2 powi q
        in if \<bar>r\<bar> < 2 ^ 1024 then Some r else None)"

definition fdiv :: "real \<Rightarrow> real \<Rightarrow> real option" where
  \<comment> \<open>\<^verbatim>\<open>x / y\<close> in \<^verbatim>\<open>float64\<close>; a zero divisor gives an infinity or not a number\<close>
  "fdiv x y = (if y = 0 then None else float64 (x / y))"

definition fmul :: "real \<Rightarrow> real option \<Rightarrow> real option" where
  \<comment> \<open>\<^verbatim>\<open>x * y\<close> in \<^verbatim>\<open>float64\<close>, for a finite \<^verbatim>\<open>x\<close>\<close>
  "fmul x y = (case y of None \<Rightarrow> None | Some v \<Rightarrow> float64 (x * v))"

definition towardZero :: "real \<Rightarrow> int" where
  \<comment> \<open>the integer part\<close>
  "towardZero v = (if 0 \<le> v then \<lfloor>v\<rfloor> else \<lceil>v\<rceil>)"

definition int64_of_float :: "real option \<Rightarrow> int" where
  \<comment> \<open>\<^verbatim>\<open>int64(x)\<close> for a float \<^verbatim>\<open>x\<close>: the fraction is discarded; an infinity, not a
      number and a value outside 64 bits give \<open>MinInt64\<close>\<close>
  "int64_of_float x =
     (case x of
        None \<Rightarrow> MinInt64
      | Some v \<Rightarrow>
          if - (2 ^ 63) \<le> towardZero v \<and> towardZero v < 2 ^ 63 then towardZero v
          else MinInt64)"

definition roundInt :: "int \<Rightarrow> nat \<Rightarrow> int" where
  \<comment> \<open>the nearest multiple of \<open>2 ^ q\<close>, the even one of two that are equally near\<close>
  "roundInt t q =
     (let f = t div 2 ^ q; r = t mod 2 ^ q
      in (if 2 * r < 2 ^ q then f
          else if 2 ^ q < 2 * r then f + 1
          else if even f then f else f + 1) * 2 ^ q)"

definition float64_of_int64 :: "int \<Rightarrow> int" where
  \<comment> \<open>\<^verbatim>\<open>float64(t)\<close> for an \<^verbatim>\<open>int64\<close>: an integer again, exact up to 53 bits\<close>
  "float64_of_int64 t =
     (if bitlen \<bar>t\<bar> \<le> 53 then t else roundInt t (nat (bitlen \<bar>t\<bar> - 53)))"

definition clampFloor :: "int \<Rightarrow> int" where
  \<comment> \<open>line 129, \<^verbatim>\<open>int64(math.Max(float64(t), 100))\<close>: the maximum is below \<open>2 ^ 63\<close>
      or is \<open>2 ^ 63\<close>, which does not fit\<close>
  "clampFloor t =
     (let m = max (float64_of_int64 t) 100
      in if m < 2 ^ 63 then m else MinInt64)"

definition Millisecond :: int where
  \<comment> \<open>\<^verbatim>\<open>time.Millisecond\<close>, in nanoseconds\<close>
  "Millisecond = 1000000"

definition Milliseconds :: "int \<Rightarrow> int" where
  \<comment> \<open>\<^verbatim>\<open>Duration.Milliseconds()\<close>\<close>
  "Milliseconds d = d sdiv Millisecond"

definition andThen :: "panic + 'a \<Rightarrow> ('a \<Rightarrow> panic + 'b) \<Rightarrow> panic + 'b" where
  \<comment> \<open>sequencing: a panic ends the tick\<close>
  "andThen r f = (case r of Inl e \<Rightarrow> Inl e | Inr x \<Rightarrow> f x)"

subsection \<open>The direction resolver (renderCharacter, lines 88 to 90)\<close>

definition direction :: "Externals \<Rightarrow> Character \<Rightarrow> int" where
  \<comment> \<open>\<^verbatim>\<open>int(char.Direction) + directiontype.DirectionTable[FixedCameraDirection]%8\<close>:
      \<^verbatim>\<open>%\<close> binds tighter than \<^verbatim>\<open>+\<close>\<close>
  "direction K char = Direction char + (DirectionTable K FixedCameraDirection smod 8)"

definition behind :: "Externals \<Rightarrow> Character \<Rightarrow> bool" where
  "behind K char = (direction K char > 1 \<and> direction K char < 6)"

definition renderShield :: "Externals \<Rightarrow> Character \<Rightarrow> bool" where
  "renderShield K char = (HasShield char \<and> ActionIndex char = StandBy K)"

subsection \<open>Selecting the action (renderAttachment, lines 120 and 121)\<close>

definition resolvedIndex :: "Externals \<Rightarrow> Character \<Rightarrow> int" where
  \<comment> \<open>the dividend of line 120, before \<^verbatim>\<open>% len(actions)\<close>\<close>
  "resolvedIndex K char =
     ActionIndex char + ((Direction char + DirectionTable K FixedCameraDirection) smod 8)"

definition actionAt :: "Action list \<Rightarrow> int \<Rightarrow> panic + Action" where
  \<comment> \<open>\<^verbatim>\<open>actions[i % len(actions)]\<close>, for a slice that is not empty\<close>
  "actionAt actions i =
     (let idx = i smod int (length actions)
      in if 0 \<le> idx \<and> idx < int (length actions)
         then Inr (actions ! nat idx) else Inl IndexOutOfRange)"

subsection \<open>The animation clock (renderAttachment, lines 122 to 143)\<close>

definition timeNeededForOneFrame :: "Action \<Rightarrow> Character \<Rightarrow> panic + int" where
  \<comment> \<open>lines 122 to 129\<close>
  "timeNeededForOneFrame action char =
     (let frameCount = int (length (Frames action));
          t = int64_of_float (fmul (Delay action) (fdiv 1 (FPSMultiplier char)))
      in if ForcedDuration char \<noteq> 0
         then (if frameCount = 0 then Inl DivideByZero
               else Inr (clampFloor (int64 (ForcedDuration char) sdiv frameCount)))
         else Inr (clampFloor t))"

definition elapsedTime :: "int \<Rightarrow> real \<Rightarrow> Character \<Rightarrow> int" where
  \<comment> \<open>\<^verbatim>\<open>time.Since(char.AnimationStartedAt).Milliseconds() - int64(dt)\<close>\<close>
  "elapsedTime now dt char =
     Milliseconds (now - AnimationStartedAt char) - int64_of_float (Some dt)"

definition frameIndexAt :: "Action \<Rightarrow> Character \<Rightarrow> int \<Rightarrow> panic + int" where
  \<comment> \<open>lines 122 to 143 for a given elapsed time; \<open>elapsed sdiv t\<close> is \<^verbatim>\<open>realIndex\<close>,
      whose divisor is never 0 (lemma \<open>timeNeeded_range\<close>), and \<^verbatim>\<open>frameIndex\<close> stays at
      its zero value in a play mode the switch has no case for\<close>
  "frameIndexAt action char elapsed =
     andThen (timeNeededForOneFrame action char) (\<lambda>t.
     andThen (case PlayMode char of
                Repeat \<Rightarrow>
                  if length (Frames action) = 0 then Inl DivideByZero
                  else Inr ((elapsed sdiv t) smod int (length (Frames action)))
              | OtherPlayMode n \<Rightarrow> Inr 0) (\<lambda>frameIndex.
     Inr (if length (Frames action) = 3 then 0 else frameIndex)))"

definition frameAt :: "Action \<Rightarrow> int \<Rightarrow> panic + ActionFrame" where
  \<comment> \<open>\<^verbatim>\<open>action.Frames[frameIndex]\<close>\<close>
  "frameAt action i =
     (if 0 \<le> i \<and> i < int (length (Frames action))
      then Inr (Frames action ! nat i) else Inl IndexOutOfRange)"

subsection \<open>The layer compositor (renderLayer, and lines 146 to 177)\<close>

definition renderLayer ::
  "Externals \<Rightarrow> Character \<Rightarrow> ActionFrameLayer \<Rightarrow> SpriteFile \<Rightarrow> real \<times> real \<Rightarrow>
   SpriteRenderCommand list \<Rightarrow> panic + SpriteRenderCommand list" where
  \<comment> \<open>\<^verbatim>\<open>spr.ImageAt\<close> is not among the sources: it reads the frame table that line 196
      indexes, so an index outside the table is the panic of that line\<close>
  "renderLayer K char layer spr off cmds =
     (let frameIndex = SpriteFrameIndex layer
      in if frameIndex < 0 then Inr cmds
         else if int (length (SprFrames spr)) \<le> frameIndex then Inl IndexOutOfRange
         else
           let frame = SprFrames spr ! nat frameIndex
           in case NewTextureFromRGBA K frame of
                None \<Rightarrow> Inl TextureError
              | Some texture \<Rightarrow>
                  let width = real_of_int (Width frame) * SpriteScaleFactor
                                * (fst (Scale layer) * OnePixelSize K);
                      height = real_of_int (Height frame) * SpriteScaleFactor
                                * (snd (Scale layer) * OnePixelSize K);
                      rot = real_of_int (Angle layer) * (pi / 180);
                      off' = ((real_of_int (fst (Position layer)) + fst off)
                                * OnePixelSize K * SpriteScaleFactor,
                              (real_of_int (snd (Position layer)) + snd off)
                                * OnePixelSize K * SpriteScaleFactor)
                  in Inr (cmds @
                       [\<lparr> cmdScale = Scale layer,
                          cmdSize = (width, height),
                          cmdPosition = CharPosition char,
                          cmdOffset = off',
                          RotationRadians = rot,
                          Texture = texture,
                          FlipVertically = Mirrored layer \<rparr>]))"

fun renderLayers ::
  "Externals \<Rightarrow> Character \<Rightarrow> ActionFrameLayer list \<Rightarrow> SpriteFile \<Rightarrow> real \<times> real \<Rightarrow>
   SpriteRenderCommand list \<Rightarrow> panic + SpriteRenderCommand list" where
  "renderLayers K char [] spr position cmds = Inr cmds"
| "renderLayers K char (layer # layers) spr position cmds =
     (if SpriteFrameIndex layer < 0 then renderLayers K char layers spr position cmds
      else case renderLayer K char layer spr position cmds of
             Inl e \<Rightarrow> Inl e
           | Inr cmds' \<Rightarrow> renderLayers K char layers spr position cmds')"

definition chainPosition :: "ActionFrame \<Rightarrow> AttachmentType \<Rightarrow> real \<times> real \<Rightarrow> real \<times> real" where
  \<comment> \<open>lines 151 to 158\<close>
  "chainPosition frame elem off =
     (if length (Positions frame) > 0 \<and> elem \<noteq> AttachmentBody \<and> elem \<noteq> AttachmentShield
      then (fst off - real_of_int (fst (Positions frame ! 0)),
            snd off - real_of_int (snd (Positions frame ! 0)))
      else (0, 0))"

definition renderFrame ::
  "Externals \<Rightarrow> AttachmentType \<Rightarrow> Action \<Rightarrow> ActionFrame \<Rightarrow> SpriteFile \<Rightarrow> RenderState \<Rightarrow>
   panic + RenderState" where
  \<comment> \<open>lines 146 to 177, once the frame is selected\<close>
  "renderFrame K elem action frame spr st =
     (if length (Layers frame) = 0 then Inr (st\<lparr> offset := (0, 0) \<rparr>)
      else
        let position = chainPosition frame elem (offset st)
        in case renderLayers K (character st) (Layers frame) spr position (sprite st) of
             Inl e \<Rightarrow> Inl e
           | Inr cmds \<Rightarrow>
               Inr \<lparr> character = (character st)
                        \<lparr> AnimationDelay := DurationMilliseconds action * Millisecond \<rparr>,
                     offset = (if length (Positions frame) > 0
                               then (real_of_int (fst (Positions frame ! 0)),
                                     real_of_int (snd (Positions frame ! 0)))
                               else offset st),
                     sprite = cmds \<rparr>)"

definition resolveFrame ::
  "Externals \<Rightarrow> real \<Rightarrow> int \<Rightarrow> Character \<Rightarrow> Action list \<Rightarrow> panic + Action \<times> ActionFrame" where
  \<comment> \<open>lines 120 to 146: the action and the frame that are drawn\<close>
  "resolveFrame K dt now char actions =
     andThen (actionAt actions (resolvedIndex K char)) (\<lambda>action.
     andThen (frameIndexAt action char (elapsedTime now dt char)) (\<lambda>frameIndex.
     andThen (frameAt action frameIndex) (\<lambda>frame.
     Inr (action, frame))))"

definition renderAttachment ::
  "Externals \<Rightarrow> real \<Rightarrow> int \<Rightarrow> AttachmentType \<Rightarrow> RenderState \<Rightarrow> panic + RenderState" where
  "renderAttachment K dt now elem st =
     (case Files (character st) elem of
        None \<Rightarrow> Inl NilDereference
      | Some files \<Rightarrow>
          if length (Actions (ACT files)) = 0 then Inr st
          else andThen (resolveFrame K dt now (character st) (Actions (ACT files)))
                 (\<lambda>(action, frame). renderFrame K elem action frame (SPR files) st))"

subsection \<open>The orchestrator (renderCharacter)\<close>

definition renderCharacter ::
  "Externals \<Rightarrow> real \<Rightarrow> (AttachmentType \<Rightarrow> int) \<Rightarrow> Character \<Rightarrow> SpriteRenderCommand list \<Rightarrow>
   panic + RenderState" where
  \<comment> \<open>\<open>now elem\<close> is the wall clock when attachment \<open>elem\<close> is rendered;
      \<open>cmds\<close> are the commands of the characters rendered earlier in the tick\<close>
  "renderCharacter K dt now char cmds =
     andThen (if ActionIndex char \<noteq> Dead K \<and> ActionIndex char \<noteq> Sitting K
              then renderAttachment K dt (now AttachmentShadow) AttachmentShadow
                     \<lparr> character = char, offset = (0, 0), sprite = cmds \<rparr>
              else Inr \<lparr> character = char, offset = (0, 0), sprite = cmds \<rparr>) (\<lambda>st1.
     andThen (if behind K char \<and> renderShield K char
              then renderAttachment K dt (now AttachmentShield) AttachmentShield st1
              else Inr st1) (\<lambda>st2.
     andThen (renderAttachment K dt (now AttachmentBody) AttachmentBody st2) (\<lambda>st3.
     andThen (renderAttachment K dt (now AttachmentHead) AttachmentHead st3) (\<lambda>st4.
     if \<not> behind K char \<and> renderShield K char
     then renderAttachment K dt (now AttachmentShield) AttachmentShield st4
     else Inr st4))))"

fun renderAttachments ::
  "Externals \<Rightarrow> real \<Rightarrow> (AttachmentType \<Rightarrow> int) \<Rightarrow> AttachmentType list \<Rightarrow> RenderState \<Rightarrow>
   panic + RenderState" where
  \<comment> \<open>the attachments of a list rendered one after the other, for stating the draw order\<close>
  "renderAttachments K dt now [] st = Inr st"
| "renderAttachments K dt now (elem # elems) st =
     andThen (renderAttachment K dt (now elem) elem st) (renderAttachments K dt now elems)"

subsection \<open>Notions for stating the properties\<close>

definition drawnLayers :: "ActionFrame \<Rightarrow> ActionFrameLayer list" where
  \<comment> \<open>the layers of a frame that line 162 does not skip\<close>
  "drawnLayers frame = filter (\<lambda>layer. 0 \<le> SpriteFrameIndex layer) (Layers frame)"

definition shiftedOffset :: "Externals \<Rightarrow> real \<times> real \<Rightarrow> ActionFrameLayer \<Rightarrow> real \<times> real" where
  \<comment> \<open>the offset of a command whose raw layer position is shifted by \<open>shift\<close>,
      in world units\<close>
  "shiftedOffset K shift layer =
     ((real_of_int (fst (Position layer)) + fst shift) * OnePixelSize K * SpriteScaleFactor,
      (real_of_int (snd (Position layer)) + snd shift) * OnePixelSize K * SpriteScaleFactor)"

definition layerCommand ::
  "Externals \<Rightarrow> Character \<Rightarrow> SpriteFile \<Rightarrow> real \<times> real \<Rightarrow> ActionFrameLayer \<Rightarrow>
   SpriteRenderCommand" where
  \<comment> \<open>the command that stands for a drawn layer (lines 196 to 217), with the texture
      the provider returns for its sprite frame\<close>
  "layerCommand K char spr off layer =
     (let frame = SprFrames spr ! nat (SpriteFrameIndex layer)
      in \<lparr> cmdScale = Scale layer,
           cmdSize =
             (real_of_int (Width frame) * SpriteScaleFactor
                * (fst (Scale layer) * OnePixelSize K),
              real_of_int (Height frame) * SpriteScaleFactor
                * (snd (Scale layer) * OnePixelSize K)),
           cmdPosition = CharPosition char,
           cmdOffset = shiftedOffset K off layer,
           RotationRadians = real_of_int (Angle layer) * (pi / 180),
           Texture = the (NewTextureFromRGBA K frame),
           FlipVertically = Mirrored layer \<rparr>)"

definition attachmentCommands ::
  "Externals \<Rightarrow> real \<Rightarrow> int \<Rightarrow> Character \<Rightarrow> AttachmentType \<Rightarrow> real \<times> real \<Rightarrow>
   SpriteRenderCommand list" where
  \<comment> \<open>the commands of one attachment: one for every drawn layer of its resolved
      frame, in the order of the layers, with the sprite file of the attachment;
      \<open>off\<close> is the accumulator when the attachment is rendered\<close>
  "attachmentCommands K dt now char elem off =
     (case Files char elem of
        None \<Rightarrow> []
      | Some files \<Rightarrow>
          if Actions (ACT files) = [] then []
          else (case resolveFrame K dt now char (Actions (ACT files)) of
                  Inl e \<Rightarrow> []
                | Inr (action, frame) \<Rightarrow>
                    map (layerCommand K char (SPR files) (chainPosition frame elem off))
                      (drawnLayers frame)))"

definition offsetAfter ::
  "Externals \<Rightarrow> real \<Rightarrow> int \<Rightarrow> Character \<Rightarrow> AttachmentType \<Rightarrow> real \<times> real \<Rightarrow> real \<times> real" where
  \<comment> \<open>the accumulator that one attachment leaves to the next\<close>
  "offsetAfter K dt now char elem off =
     (case Files char elem of
        None \<Rightarrow> off
      | Some files \<Rightarrow>
          if Actions (ACT files) = [] then off
          else (case resolveFrame K dt now char (Actions (ACT files)) of
                  Inl e \<Rightarrow> off
                | Inr (action, frame) \<Rightarrow>
                    if Layers frame = [] then (0, 0)
                    else if Positions frame = [] then off
                    else (real_of_int (fst (Positions frame ! 0)),
                          real_of_int (snd (Positions frame ! 0)))))"

fun commandsInOrder ::
  "Externals \<Rightarrow> real \<Rightarrow> (AttachmentType \<Rightarrow> int) \<Rightarrow> Character \<Rightarrow> AttachmentType list \<Rightarrow>
   real \<times> real \<Rightarrow> SpriteRenderCommand list" where
  \<comment> \<open>the commands of the attachments of a list, those of an earlier attachment
      before those of a later one\<close>
  "commandsInOrder K dt now char [] off = []"
| "commandsInOrder K dt now char (elem # elems) off =
     attachmentCommands K dt (now elem) char elem off
       @ commandsInOrder K dt now char elems (offsetAfter K dt (now elem) char elem off)"

definition durationOfMilliseconds :: "int \<Rightarrow> int" where
  \<comment> \<open>\<^verbatim>\<open>time.Duration(ms) * time.Millisecond\<close>\<close>
  "durationOfMilliseconds ms = ms * Millisecond"

subsection \<open>Fixtures\<close>

text \<open>
  Concrete assets and characters on which the properties below are exercised: a
  direction table whose entry for the fixed camera direction is 0, a texture provider
  that never fails, a body whose frame carries the anchor (10, 5), and a head whose
  frame carries no anchor.
\<close>

definition fixtureTable :: "nat \<Rightarrow> int" where
  "fixtureTable i = [6, 5, 4, 3, 2, 1, 0, 7] ! i"

definition fixtureTexture :: "SpriteFrame \<Rightarrow> nat option" where
  "fixtureTexture frame = Some (length (Data frame))"

definition fixtureExternals :: Externals where
  "fixtureExternals =
     \<lparr> DirectionTable = fixtureTable, StandBy = 32, Dead = 64, Sitting = 16,
       OnePixelSize = 1 / 32, NewTextureFromRGBA = fixtureTexture \<rparr>"

definition fixtureLayer :: ActionFrameLayer where
  "fixtureLayer =
     \<lparr> SpriteFrameIndex = 0, Scale = (1, 1), Angle = 0, Position = (3, 4),
       Mirrored = False \<rparr>"

definition bodyFrame :: ActionFrame where
  "bodyFrame = \<lparr> Layers = [fixtureLayer], Positions = [(10, 5)] \<rparr>"

definition headFrame :: ActionFrame where
  "headFrame = \<lparr> Layers = [fixtureLayer], Positions = [] \<rparr>"

definition bodyAction :: Action where
  "bodyAction = \<lparr> Frames = [bodyFrame], Delay = 150, DurationMilliseconds = 7 \<rparr>"

definition headAction :: Action where
  "headAction = \<lparr> Frames = [headFrame], Delay = 150, DurationMilliseconds = 7 \<rparr>"

definition fidgetAction :: Action where
  \<comment> \<open>three frames: the case of line 141\<close>
  "fidgetAction =
     \<lparr> Frames = [headFrame, headFrame, headFrame], Delay = 100, DurationMilliseconds = 7 \<rparr>"

definition walkAction :: Action where
  "walkAction =
     \<lparr> Frames = [bodyFrame, headFrame, bodyFrame, headFrame], Delay = 100,
       DurationMilliseconds = 7 \<rparr>"

definition emptyAction :: Action where
  "emptyAction = \<lparr> Frames = [], Delay = 100, DurationMilliseconds = 7 \<rparr>"

definition fixtureSprite :: SpriteFile where
  "fixtureSprite = \<lparr> SprFrames = [\<lparr> Width = 2, Height = 3, Data = [] \<rparr>] \<rparr>"

definition bodyFiles :: AttachmentFiles where
  "bodyFiles = \<lparr> ACT = \<lparr> Actions = [bodyAction] \<rparr>, SPR = fixtureSprite \<rparr>"

definition headFiles :: AttachmentFiles where
  "headFiles = \<lparr> ACT = \<lparr> Actions = [headAction] \<rparr>, SPR = fixtureSprite \<rparr>"

fun fixtureFiles :: "AttachmentType \<Rightarrow> AttachmentFiles option" where
  "fixtureFiles AttachmentBody = Some bodyFiles"
| "fixtureFiles elem = Some headFiles"

definition fixtureCharacter :: Character where
  "fixtureCharacter =
     \<lparr> HasShield = True, ActionIndex = 32, Direction = 5, PlayMode = Repeat,
       FPSMultiplier = 1, ForcedDuration = 0, AnimationStartedAt = 0,
       AnimationDelay = 0, CharPosition = (0, 0, 0), Files = fixtureFiles \<rparr>"

definition fixtureState :: RenderState where
  "fixtureState = \<lparr> character = fixtureCharacter, offset = (0, 0), sprite = [] \<rparr>"

definition fixtureClock :: "AttachmentType \<Rightarrow> int" where
  \<comment> \<open>every attachment rendered one second after the animation started\<close>
  "fixtureClock elem = 1000000000"

definition forcedCharacter :: Character where
  \<comment> \<open>the same character with a forced total duration\<close>
  "forcedCharacter = fixtureCharacter \<lparr> ForcedDuration := 500 \<rparr>"

definition forcedState :: RenderState where
  "forcedState = \<lparr> character = forcedCharacter, offset = (0, 0), sprite = [] \<rparr>"

definition strayCharacter :: Character where
  \<comment> \<open>idle (action kind 0) and turned one step below direction 0\<close>
  "strayCharacter = fixtureCharacter \<lparr> ActionIndex := 0, Direction := - 1 \<rparr>"

definition holdCharacter :: Character where
  \<comment> \<open>a play mode the switch of line 134 has no case for\<close>
  "holdCharacter = fixtureCharacter \<lparr> PlayMode := OtherPlayMode 0 \<rparr>"

definition forcedHoldCharacter :: Character where
  "forcedHoldCharacter = forcedCharacter \<lparr> PlayMode := OtherPlayMode 0 \<rparr>"

definition fixtureCommand :: SpriteRenderCommand where
  \<comment> \<open>the command of \<open>fixtureLayer\<close> drawn with no shift\<close>
  "fixtureCommand =
     \<lparr> cmdScale = (1, 1), cmdSize = (25 / 4, 75 / 8), cmdPosition = (0, 0, 0),
       cmdOffset = (75 / 8, 25 / 2), RotationRadians = 0, Texture = 0,
       FlipVertically = False \<rparr>"

definition bodyDone :: RenderState where
  \<comment> \<open>the state after the body of \<open>fixtureState\<close> is rendered\<close>
  "bodyDone =
     \<lparr> character = fixtureCharacter \<lparr> AnimationDelay := 7000000 \<rparr>,
       offset = (10, 5), sprite = [fixtureCommand] \<rparr>"

definition headDone :: RenderState where
  \<comment> \<open>the state after the head is rendered next\<close>
  "headDone =
     \<lparr> character = fixtureCharacter \<lparr> AnimationDelay := 7000000 \<rparr>,
       offset = (10, 5), sprite = [fixtureCommand, fixtureCommand] \<rparr>"

definition forcedDone :: RenderState where
  \<comment> \<open>the state after the body of \<open>forcedState\<close> is rendered\<close>
  "forcedDone =
     \<lparr> character = forcedCharacter \<lparr> AnimationDelay := 7000000 \<rparr>,
       offset = (10, 5), sprite = [fixtureCommand] \<rparr>"

definition taggedSprite :: "nat \<Rightarrow> SpriteFile" where
  \<comment> \<open>a sprite file for which \<open>fixtureTexture\<close> returns the texture \<open>n\<close>\<close>
  "taggedSprite n = \<lparr> SprFrames = [\<lparr> Width = 2, Height = 3, Data = replicate n 0 \<rparr>] \<rparr>"

definition taggedCommand :: "nat \<Rightarrow> SpriteRenderCommand" where
  "taggedCommand n = fixtureCommand \<lparr> Texture := n \<rparr>"

fun orderFiles :: "AttachmentType \<Rightarrow> AttachmentFiles option" where
  "orderFiles AttachmentShadow =
     Some \<lparr> ACT = \<lparr> Actions = [headAction] \<rparr>, SPR = taggedSprite 0 \<rparr>"
| "orderFiles AttachmentShield =
     Some \<lparr> ACT = \<lparr> Actions = [headAction] \<rparr>, SPR = taggedSprite 1 \<rparr>"
| "orderFiles AttachmentBody =
     Some \<lparr> ACT = \<lparr> Actions = [bodyAction] \<rparr>, SPR = taggedSprite 2 \<rparr>"
| "orderFiles AttachmentHead =
     Some \<lparr> ACT = \<lparr> Actions = [headAction] \<rparr>, SPR = taggedSprite 3 \<rparr>"

definition orderCharacter :: Character where
  \<comment> \<open>a shield bearer standing by with its back to the camera, every attachment
      with a texture of its own: 0 the shadow, 1 the shield, 2 the body, 3 the head\<close>
  "orderCharacter = fixtureCharacter \<lparr> Files := orderFiles \<rparr>"

definition orderFrontCharacter :: Character where
  \<comment> \<open>the same shield bearer facing the camera\<close>
  "orderFrontCharacter = orderCharacter \<lparr> Direction := 0 \<rparr>"

definition orderDone :: RenderState where
  "orderDone =
     \<lparr> character = orderCharacter \<lparr> AnimationDelay := 7000000 \<rparr>, offset = (10, 5),
       sprite = [taggedCommand 0, taggedCommand 1, taggedCommand 2, taggedCommand 3] \<rparr>"

definition orderFrontDone :: RenderState where
  "orderFrontDone =
     \<lparr> character = orderFrontCharacter \<lparr> AnimationDelay := 7000000 \<rparr>, offset = (10, 5),
       sprite = [taggedCommand 0, taggedCommand 2, taggedCommand 3, taggedCommand 1] \<rparr>"

definition slowAction :: Action where
  "slowAction = \<lparr> Frames = [bodyFrame], Delay = 5390, DurationMilliseconds = 7 \<rparr>"

definition slowCharacter :: Character where
  "slowCharacter = fixtureCharacter \<lparr> FPSMultiplier := 49 \<rparr>"

definition quickCharacter :: Character where
  "quickCharacter = fixtureCharacter \<lparr> FPSMultiplier := 2 \<rparr>"

definition hugeCharacter :: Character where
  \<comment> \<open>the largest forced duration an int64 holds\<close>
  "hugeCharacter = fixtureCharacter \<lparr> ForcedDuration := 9223372036854775807 \<rparr>"

section \<open>Properties\<close>

subsection \<open>Integer division of Go on non-negative operands\<close>

lemma smod_nonneg: "0 \<le> a \<Longrightarrow> 0 < b \<Longrightarrow> a smod b = a mod (b::int)"
  by (simp add: smod_mod_positive)

lemma sdiv_nonneg: "0 \<le> a \<Longrightarrow> 0 < b \<Longrightarrow> a sdiv b = a div (b::int)"
  by (simp add: signed_divide_int_def sgn_if)

lemma smod_one: "(x::int) smod 1 = 0"
  by (simp add: signed_modulo_int_def)

lemma sdiv_one: "(x::int) sdiv 1 = x"
  by (simp add: signed_divide_int_def sgn_if)

lemma sdiv_below:
  assumes "a < 2 ^ 63" and "(2::int) \<le> n"
  shows "a sdiv n \<le> 2 ^ 62"
proof (cases "0 \<le> a")
  case True
  then have "a sdiv n = a div n" using assms(2) by (intro sdiv_nonneg) simp_all
  also have "a div n \<le> a div 2" using True assms(2) by (intro zdiv_mono2) simp_all
  also have "a div 2 \<le> 2 ^ 62" using assms(1) by simp
  finally show ?thesis .
next
  case False
  then have "a sdiv n = - (\<bar>a\<bar> div \<bar>n\<bar>)"
    using assms(2) by (simp add: signed_divide_int_def sgn_if)
  moreover have "0 \<le> \<bar>a\<bar> div \<bar>n\<bar>"
    using assms(2) by (intro pos_imp_zdiv_nonneg_iff [THEN iffD2]) simp_all
  ultimately show ?thesis by simp
qed

lemma int64_small: "- (2 ^ 63) \<le> x \<Longrightarrow> x < 2 ^ 63 \<Longrightarrow> int64 x = x"
  by (simp add: int64_def signed_take_bit_int_eq_self)

lemma int64_less: "int64 x < 2 ^ 63"
  unfolding int64_def by (rule signed_take_bit_int_less_exp)

subsection \<open>Rounding and conversions\<close>

lemma binade_eqI:
  assumes "2 powi e \<le> \<bar>x\<bar>" and "\<bar>x\<bar> < 2 powi (e + 1)"
  shows "binade x = e"
proof -
  have pos: "0 < \<bar>x\<bar>" using assms(1) by (smt (verit) zero_less_power_int)
  have "(2::real) powr real_of_int e = 2 powi e"
    "(2::real) powr (real_of_int e + 1) = 2 powi (e + 1)"
    using powr_real_of_int' [of 2 e] powr_real_of_int' [of 2 "e + 1"] by simp_all
  then have "2 powr real_of_int e \<le> \<bar>x\<bar> \<and> \<bar>x\<bar> < 2 powr (real_of_int e + 1)"
    using assms by simp
  then show ?thesis
    unfolding binade_def using floor_log_eq_powr_iff [of "\<bar>x\<bar>" 2 e] pos by simp
qed

lemma binade_bounds:
  assumes "x \<noteq> 0"
  shows "2 powi binade x \<le> \<bar>x\<bar>" and "\<bar>x\<bar> < 2 powi (binade x + 1)"
proof -
  have pos: "0 < \<bar>x\<bar>" using assms by simp
  have "2 powr real_of_int (binade x) \<le> \<bar>x\<bar> \<and> \<bar>x\<bar> < 2 powr (real_of_int (binade x) + 1)"
    using floor_log_eq_powr_iff [of "\<bar>x\<bar>" 2 "binade x"] pos by (simp add: binade_def)
  moreover have "(2::real) powr real_of_int (binade x) = 2 powi binade x"
    "(2::real) powr (real_of_int (binade x) + 1) = 2 powi (binade x + 1)"
    using powr_real_of_int' [of 2 "binade x"] powr_real_of_int' [of 2 "binade x + 1"]
    by simp_all
  ultimately show "2 powi binade x \<le> \<bar>x\<bar>" and "\<bar>x\<bar> < 2 powi (binade x + 1)" by simp_all
qed

lemma roundHalfEven_of_int [simp]: "roundHalfEven (of_int k) = k"
  by (simp add: roundHalfEven_def)

lemma roundHalfEven_near: "\<bar>of_int (roundHalfEven y) - y\<bar> \<le> 1 / 2"
  unfolding roundHalfEven_def Let_def by (auto; linarith)

lemma float64_fits:
  assumes "float64 x = Some p"
  shows "\<exists>k q. p = of_int k * 2 powi q \<and> \<bar>k\<bar> \<le> 2 ^ 53"
proof (cases "x = 0")
  case True
  then have "p = of_int 0 * 2 powi 0" using assms by (simp add: float64_def)
  then show ?thesis by (metis abs_zero zero_le_numeral zero_le_power)
next
  case False
  define q where "q = max (binade x - 52) (- 1074)"
  define k where "k = roundHalfEven (x / 2 powi q)"
  have p: "p = of_int k * 2 powi q"
    using assms False by (auto simp: float64_def Let_def q_def k_def split: if_splits)
  have "\<bar>x\<bar> < 2 powi (binade x + 1)" using binade_bounds(2) [OF False] .
  also have "(2::real) powi (binade x + 1) = 2 powi (binade x - 52) * 2 ^ 53"
    by (simp add: power_int_add power_int_diff)
  also have "\<dots> \<le> 2 powi q * 2 ^ 53"
    by (simp add: q_def power_int_increasing)
  finally have "\<bar>x\<bar> / 2 powi q < 2 ^ 53"
    by (simp add: field_simps)
  then have y: "\<bar>x / 2 powi q\<bar> < 2 ^ 53" by simp
  have "\<bar>of_int k - x / 2 powi q\<bar> \<le> 1 / 2" unfolding k_def by (rule roundHalfEven_near)
  then have "\<bar>real_of_int k\<bar> < 2 ^ 53 + 1" using y by linarith
  then have "\<bar>k\<bar> < 2 ^ 53 + 1"
    by (metis (mono_tags, opaque_lifting) of_int_1 of_int_less_iff of_int_abs of_int_add
        of_int_numeral of_int_power)
  then show ?thesis using p by (intro exI [of _ k] exI [of _ q]) simp
qed

lemma float64_of_int:
  assumes "\<bar>n\<bar> < 2 ^ 53"
  shows "float64 (of_int n) = Some (of_int n)"
proof (cases "n = 0")
  case True
  then show ?thesis by (simp add: float64_def)
next
  case False
  define x :: real where "x = of_int n"
  have x0: "x \<noteq> 0" using False by (simp add: x_def)
  have ge1: "1 \<le> \<bar>x\<bar>" using False by (simp add: x_def)
  have lt: "\<bar>x\<bar> < 2 ^ 53" using assms unfolding x_def
    by (metis of_int_abs of_int_less_iff of_int_numeral of_int_power)
  have b0: "0 \<le> binade x"
  proof (rule ccontr)
    assume "\<not> 0 \<le> binade x"
    then have "binade x + 1 \<le> 0" by simp
    then have "(2::real) powi (binade x + 1) \<le> 2 powi 0"
      by (intro power_int_increasing) simp_all
    then show False using binade_bounds(2) [OF x0] ge1 by simp
  qed
  have b52: "binade x \<le> 52"
  proof (rule ccontr)
    assume "\<not> binade x \<le> 52"
    then have "53 \<le> binade x" by simp
    then have "(2::real) powi 53 \<le> 2 powi binade x"
      by (intro power_int_increasing) simp_all
    then show False using binade_bounds(1) [OF x0] lt by simp
  qed
  define j where "j = nat (52 - binade x)"
  have q: "max (binade x - 52) (- 1074) = - int j" using b0 b52 by (simp add: j_def)
  have "x / 2 powi (- int j) = of_int (n * 2 ^ j)"
    by (simp add: x_def power_int_minus field_simps)
  then have k: "roundHalfEven (x / 2 powi (- int j)) = n * 2 ^ j"
    by (simp only: roundHalfEven_of_int)
  have r: "of_int (n * 2 ^ j) * 2 powi (- int j) = x"
    by (simp add: x_def power_int_minus field_simps)
  have "(2::real) ^ 53 \<le> 2 ^ 1024" by (rule power_increasing) simp_all
  then have "\<bar>x\<bar> < 2 ^ 1024" using lt by linarith
  then show ?thesis
    using x0 unfolding float64_def Let_def q k r x_def [symmetric] by simp
qed

lemma float64_numeral:
  "numeral k < (2::int) ^ 53 \<Longrightarrow> float64 (numeral k) = Some (numeral k)"
  using float64_of_int [of "numeral k"] by simp

lemma float64_one: "float64 1 = Some 1"
  using float64_of_int [of 1] by simp

lemma float64_of_int64_exact:
  assumes "\<bar>t\<bar> < 2 ^ 53"
  shows "float64_of_int64 t = t"
proof -
  have "bitlen \<bar>t\<bar> \<le> 53" using assms by (simp add: bitlen_le_iff_power)
  then show ?thesis by (simp add: float64_of_int64_def)
qed

lemma roundInt_upper: "roundInt t q \<le> t + 2 ^ q"
proof -
  have "t = t div 2 ^ q * 2 ^ q + t mod 2 ^ q" by (rule div_mult_mod_eq [symmetric])
  moreover have "0 \<le> t mod 2 ^ q" by simp
  ultimately have le: "t div 2 ^ q * 2 ^ q \<le> t" by linarith
  have pos: "(0::int) < 2 ^ q" by simp
  have "t div 2 ^ q * 2 ^ q \<le> t + 2 ^ q" using le pos by linarith
  moreover have "(t div 2 ^ q + 1) * 2 ^ q = t div 2 ^ q * 2 ^ q + 2 ^ q"
    by (simp add: algebra_simps)
  then have "(t div 2 ^ q + 1) * 2 ^ q \<le> t + 2 ^ q" using le by linarith
  ultimately have "t div 2 ^ q * 2 ^ q \<le> t + 2 ^ q" "(t div 2 ^ q + 1) * 2 ^ q \<le> t + 2 ^ q"
    by simp_all
  then show ?thesis by (simp add: roundInt_def Let_def)
qed

lemma roundInt_multiple:
  assumes "t mod 2 ^ q = 0"
  shows "roundInt t q = t"
  using assms by (auto simp: roundInt_def Let_def)

lemma roundInt_nonpos:
  assumes "t < 0"
  shows "roundInt t q \<le> 0"
proof -
  have "t div 2 ^ q < 0" using assms by (simp add: div_neg_pos_less0)
  then have "t div 2 ^ q * 2 ^ q \<le> 0" "(t div 2 ^ q + 1) * 2 ^ q \<le> 0"
    by (simp_all add: mult_le_0_iff)
  then show ?thesis by (simp add: roundInt_def Let_def)
qed

lemma float64_of_int64_nonpos:
  assumes "t \<le> 0"
  shows "float64_of_int64 t \<le> 0"
  using assms roundInt_nonpos [of t] by (cases "t = 0") (auto simp: float64_of_int64_def)

lemma float64_of_int64_below:
  assumes "0 \<le> t" and "t \<le> 2 ^ 62"
  shows "float64_of_int64 t < 2 ^ 63"
proof (cases "bitlen \<bar>t\<bar> \<le> 53")
  case True
  then show ?thesis using assms by (simp add: float64_of_int64_def)
next
  case False
  have "bitlen \<bar>t\<bar> \<le> 63" using assms by (simp add: bitlen_le_iff_power)
  then have q: "nat (bitlen \<bar>t\<bar> - 53) \<le> 10" by simp
  have "roundInt t (nat (bitlen \<bar>t\<bar> - 53)) \<le> t + 2 ^ nat (bitlen \<bar>t\<bar> - 53)"
    by (rule roundInt_upper)
  also have "(2::int) ^ nat (bitlen \<bar>t\<bar> - 53) \<le> 2 ^ 10"
    using q by (intro power_increasing) simp_all
  finally have "roundInt t (nat (bitlen \<bar>t\<bar> - 53)) \<le> 2 ^ 62 + 2 ^ 10"
    using assms(2) by simp
  then show ?thesis using False by (simp add: float64_of_int64_def)
qed

lemma float64_of_int64_multiple:
  assumes "0 \<le> t" and "t < 2 ^ 63" and "t mod 2 ^ 10 = 0"
  shows "float64_of_int64 t = t"
proof (cases "bitlen \<bar>t\<bar> \<le> 53")
  case True
  then show ?thesis by (simp add: float64_of_int64_def)
next
  case False
  have "bitlen \<bar>t\<bar> \<le> 63" using assms by (simp add: bitlen_le_iff_power)
  then have q: "nat (bitlen \<bar>t\<bar> - 53) \<le> 10" by simp
  then have "(2::int) ^ nat (bitlen \<bar>t\<bar> - 53) dvd 2 ^ 10" by (rule le_imp_power_dvd)
  moreover have "(2::int) ^ 10 dvd t" using assms(3) by (simp add: dvd_eq_mod_eq_0)
  ultimately have "(2::int) ^ nat (bitlen \<bar>t\<bar> - 53) dvd t" by (rule dvd_trans)
  then have "t mod 2 ^ nat (bitlen \<bar>t\<bar> - 53) = 0" by simp
  then show ?thesis using False by (simp add: float64_of_int64_def roundInt_multiple)
qed

lemma clampFloor_range: "100 \<le> clampFloor t \<or> clampFloor t = MinInt64"
  by (simp add: clampFloor_def Let_def)

lemma clampFloor_exact:
  assumes "t < 2 ^ 53"
  shows "clampFloor t = max t 100"
proof (cases "- (2 ^ 53) < t")
  case True
  then have "float64_of_int64 t = t" using assms by (intro float64_of_int64_exact) simp
  then show ?thesis using assms by (simp add: clampFloor_def Let_def)
next
  case False
  then have "float64_of_int64 t \<le> 0" by (intro float64_of_int64_nonpos) simp
  then show ?thesis using False by (simp add: clampFloor_def Let_def)
qed

lemma clampFloor_nonpos:
  assumes "t \<le> 0"
  shows "clampFloor t = 100"
  using float64_of_int64_nonpos [OF assms] by (simp add: clampFloor_def Let_def)

lemma clampFloor_below:
  assumes "t \<le> 2 ^ 62"
  shows "100 \<le> clampFloor t"
proof (cases "0 \<le> t")
  case True
  then show ?thesis
    using float64_of_int64_below [OF True assms] by (simp add: clampFloor_def Let_def)
next
  case False
  then show ?thesis using clampFloor_nonpos [of t] by simp
qed

lemma clampFloor_multiple:
  assumes "t < 2 ^ 63" and "t mod 2 ^ 10 = 0"
  shows "100 \<le> clampFloor t"
proof (cases "0 \<le> t")
  case True
  then show ?thesis
    using float64_of_int64_multiple [OF True assms] assms(1) by (simp add: clampFloor_def Let_def)
next
  case False
  then show ?thesis using clampFloor_nonpos [of t] by simp
qed


lemma int64_of_float_None: "clampFloor (int64_of_float None) = 100"
  by (simp add: int64_of_float_def MinInt64_def clampFloor_nonpos)

lemma clampFloor_float64: "100 \<le> clampFloor (int64_of_float (float64 y))"
proof (cases "float64 y")
  case None
  then show ?thesis by (simp add: int64_of_float_None)
next
  case (Some v)
  obtain k q where v: "v = of_int k * 2 powi q" and k: "\<bar>k\<bar> \<le> 2 ^ 53"
    using float64_fits [OF Some] by blast
  define t where "t = towardZero v"
  show ?thesis
  proof (cases "- (2 ^ 63) \<le> t \<and> t < 2 ^ 63")
    case False
    then have "int64_of_float (float64 y) = MinInt64"
      using Some by (auto simp: int64_of_float_def t_def)
    then show ?thesis by (simp add: MinInt64_def clampFloor_nonpos)
  next
    case True
    then have r: "int64_of_float (float64 y) = t"
      using Some by (auto simp: int64_of_float_def t_def)
    show ?thesis
    proof (cases "0 < t")
      case False
      then show ?thesis using r clampFloor_nonpos [of t] by simp
    next
      case pos: True
      have vpos: "0 \<le> v"
      proof (rule ccontr)
        assume "\<not> 0 \<le> v"
        then have "t = \<lceil>v\<rceil>" "v < 0" by (simp_all add: t_def towardZero_def)
        then have "t \<le> 0" by (simp add: ceiling_le_zero)
        then show False using pos by simp
      qed
      then have tv: "t = \<lfloor>v\<rfloor>" by (simp add: t_def towardZero_def)
      show ?thesis
      proof (cases "q \<le> 9")
        case True
        have "real_of_int k \<le> 2 ^ 53" using k
          by (metis abs_le_D1 of_int_le_iff of_int_numeral of_int_power)
        moreover have "(2::real) powi q \<le> 2 powi 9" using True by (intro power_int_increasing) simp_all
        ultimately have "of_int k * 2 powi q \<le> (2::real) ^ 53 * 2 powi 9"
          using vpos v by (intro mult_mono) (auto simp: zero_le_mult_iff)
        then have "v \<le> 2 ^ 62" using v by simp
        then have "t \<le> 2 ^ 62" unfolding tv
          by (metis floor_mono floor_numeral floor_power of_int_numeral of_int_power floor_of_int)
        then show ?thesis using r clampFloor_below [of t] by simp
      next
        case False
        define j where "j = nat q"
        have q: "q = int j" and j: "10 \<le> j" using False by (simp_all add: j_def)
        have "v = of_int (k * 2 ^ j)" using v q by simp
        then have t: "t = k * 2 ^ j" unfolding tv by (simp only: floor_of_int)
        have "(2::int) ^ 10 dvd 2 ^ j" using j by (rule le_imp_power_dvd)
        then have "(2::int) ^ 10 dvd k * 2 ^ j" by (rule dvd_mult)
        then have "t mod 2 ^ 10 = 0" unfolding t by (simp add: dvd_eq_mod_eq_0)
        then show ?thesis using r True clampFloor_multiple [of t] by simp
      qed
    qed
  qed
qed

lemma clampFloor_fmul: "100 \<le> clampFloor (int64_of_float (fmul x y))"
  by (cases y) (simp_all add: fmul_def int64_of_float_None clampFloor_float64)


lemma roundHalfEven_eqI:
  assumes "\<bar>y - of_int k\<bar> < 1 / 2"
  shows "roundHalfEven y = k"
proof -
  have "\<lfloor>y\<rfloor> = k \<or> \<lfloor>y\<rfloor> = k - 1" using assms by linarith
  then show ?thesis
  proof
    assume f: "\<lfloor>y\<rfloor> = k"
    have "y - of_int k < 1 / 2" using assms by linarith
    then show ?thesis unfolding roundHalfEven_def Let_def f by simp
  next
    assume f: "\<lfloor>y\<rfloor> = k - 1"
    have "- (1 / 2) < y - of_int k" using assms by linarith
    then have "1 / 2 < y - of_int (k - 1)" by simp
    then have "\<not> y - of_int (k - 1) < 1 / 2" by linarith
    then show ?thesis unfolding roundHalfEven_def Let_def f
      using \<open>1 / 2 < y - of_int (k - 1)\<close> by simp
  qed
qed

lemma float64_eqI:
  assumes lo: "2 powi e \<le> \<bar>x\<bar>" and hi: "\<bar>x\<bar> < 2 powi (e + 1)"
    and e: "- 1022 \<le> e" "e < 1023"
    and k: "\<bar>x / 2 powi (e - 52) - of_int k\<bar> < 1 / 2"
  shows "float64 x = Some (of_int k * 2 powi (e - 52))"
proof -
  have x0: "x \<noteq> 0" using lo by (smt (verit) zero_less_power_int)
  have b: "binade x = e" using lo hi by (rule binade_eqI)
  have q: "max (binade x - 52) (- 1074) = e - 52" using e b by simp
  have r: "roundHalfEven (x / 2 powi (e - 52)) = k" using k by (rule roundHalfEven_eqI)
  have "\<bar>x\<bar> < 2 powi (e - 52) * 2 ^ 53"
    using hi by (simp add: power_int_add power_int_diff)
  then have "\<bar>x / 2 powi (e - 52)\<bar> < 2 ^ 53" by (simp add: field_simps)
  then have "\<bar>real_of_int k\<bar> < 2 ^ 53 + 1" using k by linarith
  then have "\<bar>k\<bar> < 2 ^ 53 + 1"
    by (metis (mono_tags, opaque_lifting) of_int_1 of_int_less_iff of_int_abs of_int_add
        of_int_numeral of_int_power)
  then have "\<bar>real_of_int k\<bar> \<le> 2 ^ 53"
    by (metis (mono_tags, opaque_lifting) of_int_le_iff of_int_abs of_int_numeral of_int_power
        zle_add1_eq_le zless_add1_eq less_le)
  then have "\<bar>real_of_int k\<bar> * 2 powi (e - 52) \<le> 2 ^ 53 * 2 powi (e - 52)"
    by (intro mult_right_mono) simp_all
  also have "(2::real) ^ 53 * 2 powi (e - 52) = 2 powi (e + 1)"
    by (simp add: power_int_add power_int_diff)
  also have "(2::real) powi (e + 1) \<le> 2 powi 1023"
    using e by (intro power_int_increasing) simp_all
  also have "(2::real) powi 1023 < 2 ^ 1024" by simp
  finally have "\<bar>real_of_int k * 2 powi (e - 52)\<bar> < 2 ^ 1024"
    by (simp add: abs_mult)
  then show ?thesis using x0 by (simp add: float64_def Let_def q r)
qed

lemma float64_error:
  assumes "float64 x = Some r"
  shows "\<bar>r - x\<bar> \<le> \<bar>x\<bar> / 2 ^ 53 + 1 / 2 ^ 1075"
proof (cases "x = 0")
  case True
  then show ?thesis using assms by (simp add: float64_def)
next
  case False
  define q where "q = max (binade x - 52) (- 1074)"
  define n where "n = roundHalfEven (x / 2 powi q)"
  have r: "r = of_int n * 2 powi q"
    using assms False by (auto simp: float64_def Let_def q_def n_def split: if_splits)
  have pos: "(0::real) < 2 powi q" by simp
  have "\<bar>of_int n - x / 2 powi q\<bar> \<le> 1 / 2" unfolding n_def by (rule roundHalfEven_near)
  then have "\<bar>of_int n - x / 2 powi q\<bar> * 2 powi q \<le> 1 / 2 * 2 powi q"
    using pos by (intro mult_right_mono) simp_all
  moreover have "\<bar>of_int n - x / 2 powi q\<bar> * 2 powi q = \<bar>r - x\<bar>"
  proof -
    have "\<bar>of_int n - x / 2 powi q\<bar> * 2 powi q = \<bar>(of_int n - x / 2 powi q) * 2 powi q\<bar>"
      using pos by (simp add: abs_mult)
    also have "(of_int n - x / 2 powi q) * 2 powi q = r - x"
      using pos by (simp add: r field_simps)
    finally show ?thesis .
  qed
  ultimately have e: "\<bar>r - x\<bar> \<le> 2 powi q / 2" by simp
  show ?thesis
  proof (cases "- 1074 \<le> binade x - 52")
    case True
    then have "q = binade x - 52" by (simp add: q_def)
    then have "(2::real) powi q = 2 powi binade x / 2 ^ 52"
      by (simp add: power_int_diff)
    moreover have "2 powi binade x \<le> \<bar>x\<bar>" using binade_bounds [OF False] by simp
    ultimately have "2 powi q / 2 \<le> \<bar>x\<bar> / 2 ^ 53" by (simp add: field_simps)
    then show ?thesis using e by simp
  next
    case False
    then have "q = - 1074" by (simp add: q_def)
    then have "(2::real) powi q / 2 = 1 / 2 ^ 1075" by (simp add: power_int_minus field_simps)
    then have "\<bar>r - x\<bar> \<le> 1 / 2 ^ 1075" using e by (simp only:)
    moreover have "0 \<le> \<bar>x\<bar> / 2 ^ 53" by simp
    ultimately show ?thesis by linarith
  qed
qed

lemma reciprocal_product_error:
  assumes "0 \<le> D" and "0 < F" and "fmul D (fdiv 1 F) = Some p"
  shows "\<bar>p - D / F\<bar> \<le> (D / F) / 2 ^ 51 + (D + 1) / 2 ^ 1074"
proof -
  obtain r where r: "float64 (1 / F) = Some r" and p: "float64 (D * r) = Some p"
    using assms(2,3) by (auto simp: fmul_def fdiv_def split: option.splits)
  define u :: real where "u = 1 / 2 ^ 53"
  define v :: real where "v = 1 / 2 ^ 1075"
  define x where "x = 1 / F"
  have u: "0 \<le> u" "u \<le> 1" and v: "0 \<le> v" and x: "0 \<le> x"
    using assms(2) by (simp_all add: u_def v_def x_def)
  have er: "\<bar>r - x\<bar> \<le> x * u + v"
    using float64_error [OF r] x by (simp add: u_def v_def x_def)
  have "x * (1 + u) = x + x * u" by (simp add: algebra_simps)
  then have rb: "\<bar>r\<bar> \<le> x * (1 + u) + v" using er x by linarith
  have "\<bar>p - D * r\<bar> \<le> \<bar>D * r\<bar> * u + v"
    using float64_error [OF p] by (simp add: u_def v_def)
  also have "\<bar>D * r\<bar> = D * \<bar>r\<bar>" using assms(1) by (simp add: abs_mult)
  finally have ep: "\<bar>p - D * r\<bar> \<le> D * \<bar>r\<bar> * u + v" .
  have "D * \<bar>r\<bar> * u \<le> D * (x * (1 + u) + v) * u"
    using rb assms(1) u by (intro mult_right_mono mult_left_mono) simp_all
  then have ep': "\<bar>p - D * r\<bar> \<le> D * (x * (1 + u) + v) * u + v" using ep by linarith
  have "\<bar>D * r - D * x\<bar> = D * \<bar>r - x\<bar>"
    using assms(1) by (simp add: abs_mult flip: right_diff_distrib)
  also have "\<dots> \<le> D * (x * u + v)" using er assms(1) by (intro mult_left_mono) simp_all
  finally have ed: "\<bar>D * r - D * x\<bar> \<le> D * (x * u + v)" .
  have "\<bar>p - D * x\<bar> \<le> \<bar>p - D * r\<bar> + \<bar>D * r - D * x\<bar>" by linarith
  then have total: "\<bar>p - D * x\<bar> \<le> D * (x * (1 + u) + v) * u + v + D * (x * u + v)"
    using ep' ed by linarith
  have dx: "0 \<le> D * x" using assms(1) x by simp
  have "D * x * u * u \<le> D * x * u * 1" using u dx by (intro mult_left_mono) simp_all
  moreover have "D * v * u \<le> D * v * 1" using u v assms(1) by (intro mult_left_mono) simp_all
  moreover have "D * (x * (1 + u) + v) * u + v + D * (x * u + v) =
      2 * (D * x * u) + D * x * u * u + D * v * u + D * v + v"
    by (simp add: algebra_simps)
  ultimately have "D * (x * (1 + u) + v) * u + v + D * (x * u + v) \<le>
      3 * (D * x * u) + 2 * (D * v) + v" by linarith
  also have "\<dots> \<le> 4 * (D * x * u) + 2 * (D * v) + 2 * v"
  proof -
    have "0 \<le> (D * x) * u" using dx u(1) by (rule mult_nonneg_nonneg)
    then show ?thesis using v by linarith
  qed
  also have "\<dots> = (D / F) / 2 ^ 51 + (D + 1) / 2 ^ 1074"
    by (simp add: u_def v_def x_def field_simps)
  finally show ?thesis using total by (simp add: x_def)
qed

lemma roundHalfEven_nonneg: "0 \<le> y \<Longrightarrow> 0 \<le> roundHalfEven y"
  by (simp add: roundHalfEven_def Let_def)

lemma float64_nonneg:
  assumes "float64 x = Some r" and "0 \<le> x"
  shows "0 \<le> r"
proof (cases "x = 0")
  case True
  then show ?thesis using assms by (simp add: float64_def)
next
  case False
  define q where "q = max (binade x - 52) (- 1074)"
  have r: "r = of_int (roundHalfEven (x / 2 powi q)) * 2 powi q"
    using assms False by (auto simp: float64_def Let_def q_def split: if_splits)
  have "0 \<le> x / 2 powi q" using assms(2) by simp
  then have "0 \<le> roundHalfEven (x / 2 powi q)" by (rule roundHalfEven_nonneg)
  then show ?thesis unfolding r by simp
qed

lemma reciprocal_product_nonneg:
  assumes "0 \<le> D" and "0 < F" and "fmul D (fdiv 1 F) = Some p"
  shows "0 \<le> p"
proof -
  obtain r where r: "float64 (1 / F) = Some r" and p: "float64 (D * r) = Some p"
    using assms(2,3) by (auto simp: fmul_def fdiv_def split: option.splits)
  have "0 \<le> r" using float64_nonneg [OF r] assms(2) by simp
  then have "0 \<le> D * r" using assms(1) by simp
  then show ?thesis using float64_nonneg [OF p] by simp
qed

lemma int64_of_float_floor:
  assumes "0 \<le> p" and "p < 2 ^ 63"
  shows "int64_of_float (Some p) = \<lfloor>p\<rfloor>"
proof -
  have "\<lfloor>p\<rfloor> < 2 ^ 63" using assms(2) by (simp add: floor_less_iff)
  moreover have "0 \<le> \<lfloor>p\<rfloor>" using assms(1) by simp
  ultimately show ?thesis using assms(1) by (simp add: int64_of_float_def towardZero_def)
qed

subsection \<open>Sequencing\<close>

lemma andThen_Inr: "andThen r Inr = r"
  by (simp add: andThen_def split: sum.splits)

lemma andThen_Inr_left: "andThen (Inr x) f = f x"
  by (simp add: andThen_def)

lemma renderAttachments_Nil: "renderAttachments K dt now [] = Inr"
  by (rule ext) simp

lemma renderAttachments_Cons:
  "renderAttachments K dt now (elem # elems) =
     (\<lambda>st. andThen (renderAttachment K dt (now elem) elem st) (renderAttachments K dt now elems))"
  by (rule ext) simp

subsection \<open>The animation clock\<close>

lemma timeNeeded_range:
  assumes "timeNeededForOneFrame action char = Inr d"
  shows "100 \<le> d \<or> (d = MinInt64 \<and> length (Frames action) = 1)"
proof (cases "ForcedDuration char = 0")
  case True
  then have "d = clampFloor (int64_of_float (fmul (Delay action) (fdiv 1 (FPSMultiplier char))))"
    using assms by (simp add: timeNeededForOneFrame_def Let_def)
  then show ?thesis using clampFloor_fmul by simp
next
  case False
  then have n: "Frames action \<noteq> []"
    and d: "d = clampFloor (int64 (ForcedDuration char) sdiv int (length (Frames action)))"
    using assms by (auto simp: timeNeededForOneFrame_def Let_def split: if_splits)
  show ?thesis
  proof (cases "length (Frames action) = 1")
    case True
    then show ?thesis using d clampFloor_range by auto
  next
    case False
    moreover have "length (Frames action) \<noteq> 0" using n by simp
    ultimately have "2 \<le> int (length (Frames action))" by linarith
    then have "int64 (ForcedDuration char) sdiv int (length (Frames action)) \<le> 2 ^ 62"
      using int64_less by (rule sdiv_below [rotated])
    then show ?thesis using d clampFloor_below by simp
  qed
qed

lemma timeNeeded_total:
  "ForcedDuration char = 0 \<or> Frames action \<noteq> [] \<Longrightarrow>
   \<exists>t. timeNeededForOneFrame action char = Inr t"
  by (auto simp: timeNeededForOneFrame_def Let_def)

lemma frameIndexAt_single:
  assumes "length (Frames action) = 1" and "timeNeededForOneFrame action char = Inr t"
  shows "frameIndexAt action char e = Inr 0"
  using assms
  by (simp add: frameIndexAt_def andThen_def smod_one split: ActionPlayMode.splits)

lemma frameIndexAt_Repeat:
  assumes "PlayMode char = Repeat" and "Frames action \<noteq> []" and "0 \<le> e"
    and "timeNeededForOneFrame action char = Inr t"
  shows "frameIndexAt action char e =
           Inr (if length (Frames action) = 3 then 0
                else (e div t) mod int (length (Frames action)))"
proof (cases "100 \<le> t")
  case True
  then have t: "0 < t" by simp
  have N: "0 < int (length (Frames action))" using assms(2) by simp
  have q: "e sdiv t = e div t" using assms(3) t by (rule sdiv_nonneg)
  have "0 \<le> e div t" using assms(3) t by (simp add: pos_imp_zdiv_nonneg_iff)
  then have "(e div t) smod int (length (Frames action)) =
               (e div t) mod int (length (Frames action))"
    using N by (rule smod_nonneg)
  then show ?thesis using assms(1,2,4) q by (simp add: frameIndexAt_def andThen_def)
next
  case False
  then have one: "length (Frames action) = 1" using timeNeeded_range [OF assms(4)] by simp
  then show ?thesis using frameIndexAt_single [OF one assms(4)] by simp
qed

subsection \<open>The layer compositor\<close>

lemma renderLayer_offset:
  assumes "renderLayer K char layer spr pos cmds = Inr cmds'" and "0 \<le> SpriteFrameIndex layer"
  shows "\<exists>c. cmds' = cmds @ [c] \<and> cmdOffset c = shiftedOffset K pos layer"
  using assms
  by (auto simp: renderLayer_def Let_def shiftedOffset_def split: if_splits option.splits)

lemma renderLayers_offsets:
  "renderLayers K char layers spr pos cmds = Inr cmds' \<Longrightarrow>
   \<exists>new. cmds' = cmds @ new \<and>
         map cmdOffset new =
           map (shiftedOffset K pos) (filter (\<lambda>layer. 0 \<le> SpriteFrameIndex layer) layers)"
proof (induction layers arbitrary: cmds)
  case Nil
  then show ?case by simp
next
  case (Cons layer layers)
  show ?case
  proof (cases "SpriteFrameIndex layer < 0")
    case True
    then show ?thesis using Cons by simp
  next
    case False
    then obtain mid where mid: "renderLayer K char layer spr pos cmds = Inr mid"
      and rest: "renderLayers K char layers spr pos mid = Inr cmds'"
      using Cons.prems by (auto split: sum.splits)
    obtain c where c: "mid = cmds @ [c]" "cmdOffset c = shiftedOffset K pos layer"
      using renderLayer_offset [OF mid] False by auto
    obtain new where new: "cmds' = mid @ new"
      "map cmdOffset new =
         map (shiftedOffset K pos) (filter (\<lambda>layer. 0 \<le> SpriteFrameIndex layer) layers)"
      using Cons.IH [OF rest] by blast
    have "cmds' = cmds @ (c # new)" using c new by simp
    moreover have "map cmdOffset (c # new) =
        map (shiftedOffset K pos)
          (filter (\<lambda>layer. 0 \<le> SpriteFrameIndex layer) (layer # layers))"
      using c new False by simp
    ultimately show ?thesis by blast
  qed
qed

lemma renderFrame_offsets:
  assumes "renderFrame K elem action frame spr st = Inr st'"
  shows "\<exists>new. sprite st' = sprite st @ new \<and>
           map cmdOffset new =
             map (shiftedOffset K (chainPosition frame elem (offset st))) (drawnLayers frame)"
proof (cases "Layers frame = []")
  case True
  then show ?thesis using assms by (auto simp: renderFrame_def drawnLayers_def)
next
  case False
  then obtain cmds where
    cmds: "renderLayers K (character st) (Layers frame) spr
             (chainPosition frame elem (offset st)) (sprite st) = Inr cmds"
    and st': "sprite st' = cmds"
    using assms by (auto simp: renderFrame_def Let_def split: sum.splits)
  show ?thesis using renderLayers_offsets [OF cmds] st' by (simp add: drawnLayers_def)
qed

lemma renderFrame_delay:
  assumes "renderFrame K elem action frame spr st = Inr st'" and "Layers frame \<noteq> []"
  shows "AnimationDelay (character st') = DurationMilliseconds action * Millisecond"
  using assms by (auto simp: renderFrame_def Let_def split: sum.splits)

lemma renderFrame_anchor:
  assumes "renderFrame K elem action frame spr st = Inr st'" and "Layers frame \<noteq> []"
    and "Positions frame \<noteq> []"
  shows "offset st' =
           (real_of_int (fst (Positions frame ! 0)), real_of_int (snd (Positions frame ! 0)))"
  using assms by (auto simp: renderFrame_def Let_def split: sum.splits)

lemma renderAttachment_resolved:
  assumes "Files (character st) elem = Some files" and "Actions (ACT files) \<noteq> []"
    and "resolveFrame K dt now (character st) (Actions (ACT files)) = Inr (action, frame)"
  shows "renderAttachment K dt now elem st = renderFrame K elem action frame (SPR files) st"
  using assms by (simp add: renderAttachment_def andThen_def)

lemma renderAttachment_appends:
  assumes "renderAttachment K dt now elem st = Inr st'"
  shows "\<exists>new. sprite st' = sprite st @ new"
proof (cases "Files (character st) elem")
  case None
  then show ?thesis using assms by (simp add: renderAttachment_def)
next
  case (Some files)
  show ?thesis
  proof (cases "Actions (ACT files) = []")
    case True
    then show ?thesis using assms Some by (simp add: renderAttachment_def)
  next
    case False
    then obtain action frame where
      "resolveFrame K dt now (character st) (Actions (ACT files)) = Inr (action, frame)"
      using assms Some by (auto simp: renderAttachment_def andThen_def split: sum.splits)
    then have "renderFrame K elem action frame (SPR files) st = Inr st'"
      using renderAttachment_resolved [OF Some False] assms by simp
    then show ?thesis using renderFrame_offsets by blast
  qed
qed

lemma renderAttachments_appends:
  "renderAttachments K dt now elems st = Inr st' \<Longrightarrow> \<exists>new. sprite st' = sprite st @ new"
proof (induction elems arbitrary: st)
  case Nil
  then show ?case by simp
next
  case (Cons elem elems)
  then obtain mid where mid: "renderAttachment K dt (now elem) elem st = Inr mid"
    and rest: "renderAttachments K dt now elems mid = Inr st'"
    by (auto simp: andThen_def split: sum.splits)
  obtain first where "sprite mid = sprite st @ first"
    using renderAttachment_appends [OF mid] by blast
  moreover obtain later where "sprite st' = sprite mid @ later"
    using Cons.IH [OF rest] by blast
  ultimately show ?case by simp
qed

lemma timeNeeded_AnimationDelay:
  "timeNeededForOneFrame action (char \<lparr> AnimationDelay := d \<rparr>) =
     timeNeededForOneFrame action char"
  by (simp add: timeNeededForOneFrame_def Let_def cong: if_cong)

lemma frameIndexAt_AnimationDelay:
  "frameIndexAt action (char \<lparr> AnimationDelay := d \<rparr>) e = frameIndexAt action char e"
  by (simp add: frameIndexAt_def timeNeeded_AnimationDelay)

lemma resolveFrame_AnimationDelay:
  "resolveFrame K dt now (char \<lparr> AnimationDelay := d \<rparr>) actions =
     resolveFrame K dt now char actions"
proof -
  have "resolvedIndex K (char \<lparr> AnimationDelay := d \<rparr>) = resolvedIndex K char"
    by (simp add: resolvedIndex_def)
  moreover have "elapsedTime now dt (char \<lparr> AnimationDelay := d \<rparr>) = elapsedTime now dt char"
    by (simp add: elapsedTime_def)
  ultimately show ?thesis
    by (simp add: resolveFrame_def frameIndexAt_AnimationDelay)
qed

lemma resolveFrame_single:
  assumes "Frames a = [f]"
  shows "resolveFrame K dt now c [a] = Inr (a, f)"
proof -
  obtain t where t: "timeNeededForOneFrame a c = Inr t"
    using timeNeeded_total [of c a] assms by auto
  have one: "length (Frames a) = 1" using assms by simp
  have "actionAt [a] (resolvedIndex K c) = Inr a"
    by (simp add: actionAt_def smod_one)
  moreover have "frameIndexAt a c (elapsedTime now dt c) = Inr 0"
    using frameIndexAt_single [OF one t] .
  moreover have "frameAt a 0 = Inr f" using assms by (simp add: frameAt_def)
  ultimately show ?thesis by (simp add: resolveFrame_def andThen_def)
qed

subsection \<open>The emitted commands\<close>

lemma renderLayer_command:
  assumes "renderLayer K char layer spr pos cmds = Inr cmds'" and "0 \<le> SpriteFrameIndex layer"
  shows "cmds' = cmds @ [layerCommand K char spr pos layer]"
  using assms
  by (auto simp: renderLayer_def Let_def layerCommand_def shiftedOffset_def
        split: if_splits option.splits)

lemma renderLayers_commands:
  "renderLayers K char layers spr pos cmds = Inr cmds' \<Longrightarrow>
   cmds' = cmds @ map (layerCommand K char spr pos)
                    (filter (\<lambda>layer. 0 \<le> SpriteFrameIndex layer) layers)"
proof (induction layers arbitrary: cmds)
  case Nil
  then show ?case by simp
next
  case (Cons layer layers)
  show ?case
  proof (cases "SpriteFrameIndex layer < 0")
    case True
    then show ?thesis using Cons by simp
  next
    case False
    then obtain mid where mid: "renderLayer K char layer spr pos cmds = Inr mid"
      and rest: "renderLayers K char layers spr pos mid = Inr cmds'"
      using Cons.prems by (auto split: sum.splits)
    have "mid = cmds @ [layerCommand K char spr pos layer]"
      using renderLayer_command [OF mid] False by simp
    then show ?thesis using Cons.IH [OF rest] False by simp
  qed
qed

lemma renderFrame_emits:
  assumes "renderFrame K elem action frame spr st = Inr st'"
  shows "sprite st' = sprite st @
           map (layerCommand K (character st) spr (chainPosition frame elem (offset st)))
             (drawnLayers frame)"
    and "offset st' =
           (if Layers frame = [] then (0, 0)
            else if Positions frame = [] then offset st
            else (real_of_int (fst (Positions frame ! 0)),
                  real_of_int (snd (Positions frame ! 0))))"
    and "\<exists>d. character st' = (character st) \<lparr> AnimationDelay := d \<rparr>"
proof -
  show "sprite st' = sprite st @
           map (layerCommand K (character st) spr (chainPosition frame elem (offset st)))
             (drawnLayers frame)"
  proof (cases "Layers frame = []")
    case True
    then show ?thesis using assms by (auto simp: renderFrame_def drawnLayers_def)
  next
    case False
    then obtain cmds where
      cmds: "renderLayers K (character st) (Layers frame) spr
               (chainPosition frame elem (offset st)) (sprite st) = Inr cmds"
      and st': "sprite st' = cmds"
      using assms by (auto simp: renderFrame_def Let_def split: sum.splits)
    show ?thesis using renderLayers_commands [OF cmds] st' by (simp add: drawnLayers_def)
  qed
  show "offset st' =
           (if Layers frame = [] then (0, 0)
            else if Positions frame = [] then offset st
            else (real_of_int (fst (Positions frame ! 0)),
                  real_of_int (snd (Positions frame ! 0))))"
    using assms by (auto simp: renderFrame_def Let_def split: sum.splits if_splits)
  show "\<exists>d. character st' = (character st) \<lparr> AnimationDelay := d \<rparr>"
  proof (cases "Layers frame = []")
    case True
    then have "character st' = (character st) \<lparr> AnimationDelay := AnimationDelay (character st) \<rparr>"
      using assms by (auto simp: renderFrame_def)
    then show ?thesis ..
  next
    case False
    then have "character st' =
        (character st) \<lparr> AnimationDelay := DurationMilliseconds action * Millisecond \<rparr>"
      using assms by (auto simp: renderFrame_def Let_def split: sum.splits)
    then show ?thesis ..
  qed
qed

lemma renderAttachment_emits:
  assumes "renderAttachment K dt now elem st = Inr st'"
  shows "sprite st' = sprite st @ attachmentCommands K dt now (character st) elem (offset st)"
    and "offset st' = offsetAfter K dt now (character st) elem (offset st)"
    and "\<exists>d. character st' = (character st) \<lparr> AnimationDelay := d \<rparr>"
proof -
  obtain files where files: "Files (character st) elem = Some files"
    using assms by (cases "Files (character st) elem") (simp_all add: renderAttachment_def)
  have "sprite st' = sprite st @ attachmentCommands K dt now (character st) elem (offset st)
      \<and> offset st' = offsetAfter K dt now (character st) elem (offset st)
      \<and> (\<exists>d. character st' = (character st) \<lparr> AnimationDelay := d \<rparr>)"
  proof (cases "Actions (ACT files) = []")
    case True
    then have same: "st' = st" using assms files by (simp add: renderAttachment_def)
    have "character st = (character st) \<lparr> AnimationDelay := AnimationDelay (character st) \<rparr>"
      by simp
    then have "\<exists>d. character st = (character st) \<lparr> AnimationDelay := d \<rparr>" ..
    then show ?thesis
      using True files same by (simp add: attachmentCommands_def offsetAfter_def)
  next
    case False
    then obtain action frame where
      r: "resolveFrame K dt now (character st) (Actions (ACT files)) = Inr (action, frame)"
      using assms files by (auto simp: renderAttachment_def andThen_def split: sum.splits)
    have f: "renderFrame K elem action frame (SPR files) st = Inr st'"
      using renderAttachment_resolved [OF files False r] assms by simp
    show ?thesis
      using renderFrame_emits [OF f] files False r
      by (simp add: attachmentCommands_def offsetAfter_def)
  qed
  then show "sprite st' = sprite st @ attachmentCommands K dt now (character st) elem (offset st)"
    and "offset st' = offsetAfter K dt now (character st) elem (offset st)"
    and "\<exists>d. character st' = (character st) \<lparr> AnimationDelay := d \<rparr>"
    by simp_all
qed

lemma layerCommand_AnimationDelay:
  "layerCommand K (char \<lparr> AnimationDelay := d \<rparr>) spr pos = layerCommand K char spr pos"
  by (rule ext) (simp add: layerCommand_def)

lemma attachmentCommands_AnimationDelay:
  "attachmentCommands K dt now (char \<lparr> AnimationDelay := d \<rparr>) elem off =
     attachmentCommands K dt now char elem off"
  by (simp add: attachmentCommands_def resolveFrame_AnimationDelay layerCommand_AnimationDelay
        split: option.splits sum.splits)

lemma offsetAfter_AnimationDelay:
  "offsetAfter K dt now (char \<lparr> AnimationDelay := d \<rparr>) elem off =
     offsetAfter K dt now char elem off"
  by (simp add: offsetAfter_def resolveFrame_AnimationDelay cong: option.case_cong if_cong)

lemma commandsInOrder_AnimationDelay:
  "commandsInOrder K dt now (char \<lparr> AnimationDelay := d \<rparr>) elems off =
     commandsInOrder K dt now char elems off"
  by (induction elems arbitrary: off)
     (simp_all add: attachmentCommands_AnimationDelay offsetAfter_AnimationDelay)

lemma renderAttachments_emits:
  "renderAttachments K dt now elems st = Inr st' \<Longrightarrow>
   sprite st' = sprite st @ commandsInOrder K dt now (character st) elems (offset st)"
proof (induction elems arbitrary: st)
  case Nil
  then show ?case by simp
next
  case (Cons elem elems)
  then obtain mid where mid: "renderAttachment K dt (now elem) elem st = Inr mid"
    and rest: "renderAttachments K dt now elems mid = Inr st'"
    by (auto simp: andThen_def split: sum.splits)
  obtain d where d: "character mid = (character st) \<lparr> AnimationDelay := d \<rparr>"
    using renderAttachment_emits(3) [OF mid] by blast
  have "sprite st' = sprite mid @ commandsInOrder K dt now (character mid) elems (offset mid)"
    using Cons.IH [OF rest] .
  then show ?case
    using renderAttachment_emits(1,2) [OF mid] d
    by (simp add: commandsInOrder_AnimationDelay)
qed

lemma renderCharacter_sequence:
  assumes "HasShield char" and "ActionIndex char = StandBy K"
    and "StandBy K \<noteq> Dead K" and "StandBy K \<noteq> Sitting K"
  shows "renderCharacter K dt now char cmds =
           renderAttachments K dt now
             (if behind K char
              then [AttachmentShadow, AttachmentShield, AttachmentBody, AttachmentHead]
              else [AttachmentShadow, AttachmentBody, AttachmentHead, AttachmentShield])
             \<lparr> character = char, offset = (0, 0), sprite = cmds \<rparr>"
proof (cases "behind K char")
  case True
  then show ?thesis
    using assms
    by (simp add: renderCharacter_def renderShield_def renderAttachments_Cons
          renderAttachments_Nil andThen_Inr andThen_Inr_left del: renderAttachments.simps)
next
  case False
  then show ?thesis
    using assms
    by (simp add: renderCharacter_def renderShield_def renderAttachments_Cons
          renderAttachments_Nil andThen_Inr andThen_Inr_left del: renderAttachments.simps)
qed

subsection \<open>The fixtures, evaluated\<close>

lemmas float_eval =
  fdiv_def fmul_def float64_one float64_numeral int64_of_float_def towardZero_def
  clampFloor_exact

lemma fixture_direction: "direction fixtureExternals fixtureCharacter = 5"
  by (simp add: direction_def fixtureExternals_def fixtureCharacter_def fixtureTable_def
        FixedCameraDirection_def)


lemma stray_resolvedIndex: "resolvedIndex fixtureExternals strayCharacter = - 1"
  by (simp add: resolvedIndex_def fixtureExternals_def fixtureCharacter_def fixtureTable_def
        strayCharacter_def FixedCameraDirection_def signed_modulo_int_def)

lemma fixture_elapsed: "elapsedTime 1000000000 0 fixtureCharacter = 1000"
  by (simp add: elapsedTime_def Milliseconds_def Millisecond_def int64_of_float_def
        towardZero_def fixtureCharacter_def)

lemma body_time: "timeNeededForOneFrame bodyAction fixtureCharacter = Inr 150"
  by (simp add: timeNeededForOneFrame_def bodyAction_def fixtureCharacter_def float_eval)

lemma forced_time: "timeNeededForOneFrame bodyAction forcedCharacter = Inr 500"
  by (simp add: timeNeededForOneFrame_def bodyAction_def fixtureCharacter_def
        forcedCharacter_def int64_small sdiv_one clampFloor_exact)

lemma fidget_time: "timeNeededForOneFrame fidgetAction fixtureCharacter = Inr 100"
  by (simp add: timeNeededForOneFrame_def fidgetAction_def fixtureCharacter_def float_eval)

lemma walk_time: "timeNeededForOneFrame walkAction fixtureCharacter = Inr 100"
  by (simp add: timeNeededForOneFrame_def walkAction_def fixtureCharacter_def float_eval)

lemma reciprocal_49: "fdiv 1 49 = Some (5882252574524729 / 2 ^ 58)"
proof -
  have "float64 (1 / 49) = Some (of_int 5882252574524729 * 2 powi (- 6 - 52))"
    by (rule float64_eqI) simp_all
  then show ?thesis by (simp add: fdiv_def)
qed

lemma product_5390_49: "fmul 5390 (fdiv 1 49) = Some (7740561859543039 / 2 ^ 46)"
proof -
  have "float64 (5390 * (5882252574524729 / 2 ^ 58)) =
          Some (of_int 7740561859543039 * 2 powi (6 - 52))"
    by (rule float64_eqI) simp_all
  then show ?thesis by (simp add: reciprocal_49 fmul_def)
qed

lemma slow_time: "timeNeededForOneFrame slowAction slowCharacter = Inr 109"
proof -
  have "int64_of_float (fmul 5390 (fdiv 1 49)) = 109"
    by (simp add: product_5390_49 int64_of_float_def towardZero_def)
  then show ?thesis
    by (simp add: timeNeededForOneFrame_def slowAction_def slowCharacter_def
          fixtureCharacter_def clampFloor_exact)
qed

lemma reciprocal_2: "fdiv 1 2 = Some (1 / 2)"
proof -
  have "float64 (1 / 2) = Some (of_int 4503599627370496 * 2 powi (- 1 - 52))"
    by (rule float64_eqI) simp_all
  then show ?thesis by (simp add: fdiv_def)
qed

lemma quick_time: "timeNeededForOneFrame bodyAction quickCharacter = Inr 100"
proof -
  have "fmul 150 (fdiv 1 2) = Some 75"
    by (simp add: reciprocal_2 fmul_def float64_numeral)
  then have "int64_of_float (fmul 150 (fdiv 1 2)) = 75"
    by (simp add: int64_of_float_def towardZero_def)
  then show ?thesis
    by (simp add: timeNeededForOneFrame_def bodyAction_def quickCharacter_def
          fixtureCharacter_def clampFloor_exact)
qed

lemma clampFloor_MaxInt64: "clampFloor 9223372036854775807 = MinInt64"
proof -
  have b: "bitlen (9223372036854775807::int) = 63"
    using bitlen_twopow_add_eq [of "2 ^ 62 - 1" 62] by simp
  have "roundInt 9223372036854775807 10 = 2 ^ 63" by (simp add: roundInt_def Let_def)
  then show ?thesis by (simp add: clampFloor_def float64_of_int64_def b MinInt64_def)
qed

lemma huge_time: "timeNeededForOneFrame bodyAction hugeCharacter = Inr (- (2 ^ 63))"
  by (simp add: timeNeededForOneFrame_def bodyAction_def hugeCharacter_def
        fixtureCharacter_def int64_small sdiv_one clampFloor_MaxInt64 MinInt64_def)

lemma body_resolved:
  "resolveFrame fixtureExternals 0 1000000000 fixtureCharacter [bodyAction] =
     Inr (bodyAction, bodyFrame)"
  by (rule resolveFrame_single) (simp add: bodyAction_def)

lemma forced_resolved:
  "resolveFrame fixtureExternals 0 1000000000 forcedCharacter [bodyAction] =
     Inr (bodyAction, bodyFrame)"
  by (rule resolveFrame_single) (simp add: bodyAction_def)

lemma head_resolved:
  "resolveFrame fixtureExternals 0 1000000000 (character bodyDone) [headAction] =
     Inr (headAction, headFrame)"
  by (rule resolveFrame_single) (simp add: headAction_def)

lemma fixture_layer_rendered:
  "renderLayers fixtureExternals c [fixtureLayer] fixtureSprite (0, 0) cmds =
     Inr (cmds @ [fixtureCommand \<lparr> cmdPosition := CharPosition c \<rparr>])"
  by (simp add: renderLayer_def fixtureLayer_def fixtureSprite_def fixtureExternals_def
        fixtureTexture_def fixtureCommand_def SpriteScaleFactor_def)

lemma body_rendered:
  "renderAttachment fixtureExternals 0 1000000000 AttachmentBody fixtureState = Inr bodyDone"
proof -
  have "renderFrame fixtureExternals AttachmentBody bodyAction bodyFrame fixtureSprite
          fixtureState = Inr bodyDone"
    by (simp add: renderFrame_def chainPosition_def bodyFrame_def fixture_layer_rendered
          fixtureState_def Let_def del: renderLayers.simps)
       (simp add: bodyDone_def bodyAction_def Millisecond_def fixtureCharacter_def
          fixtureCommand_def)
  then show ?thesis
    using body_resolved
    by (simp add: renderAttachment_def fixtureState_def fixtureCharacter_def bodyFiles_def
          andThen_def)
qed

lemma forced_rendered:
  "renderAttachment fixtureExternals 0 1000000000 AttachmentBody forcedState = Inr forcedDone"
proof -
  have "renderFrame fixtureExternals AttachmentBody bodyAction bodyFrame fixtureSprite
          forcedState = Inr forcedDone"
    by (simp add: renderFrame_def chainPosition_def bodyFrame_def fixture_layer_rendered
          forcedState_def Let_def del: renderLayers.simps)
       (simp add: forcedDone_def bodyAction_def Millisecond_def fixtureCharacter_def
          forcedCharacter_def fixtureCommand_def)
  then show ?thesis
    using forced_resolved
    by (simp add: renderAttachment_def forcedState_def forcedCharacter_def
          fixtureCharacter_def bodyFiles_def andThen_def)
qed

lemma head_rendered:
  "renderAttachment fixtureExternals 0 1000000000 AttachmentHead bodyDone = Inr headDone"
proof -
  have "renderFrame fixtureExternals AttachmentHead headAction headFrame fixtureSprite
          bodyDone = Inr headDone"
    by (simp add: renderFrame_def chainPosition_def headFrame_def fixture_layer_rendered
          bodyDone_def Let_def del: renderLayers.simps)
       (simp add: headDone_def headAction_def Millisecond_def fixtureCharacter_def
          fixtureCommand_def)
  moreover have "Files (character bodyDone) AttachmentHead = Some headFiles"
    by (simp add: bodyDone_def fixtureCharacter_def)
  ultimately show ?thesis
    using head_resolved
    by (simp add: renderAttachment_def headFiles_def andThen_def)
qed

lemma tagged_layer_rendered:
  "renderLayers fixtureExternals c [fixtureLayer] (taggedSprite n) (0, 0) cmds =
     Inr (cmds @ [taggedCommand n \<lparr> cmdPosition := CharPosition c \<rparr>])"
  by (simp add: renderLayer_def fixtureLayer_def taggedSprite_def fixtureExternals_def
        fixtureTexture_def fixtureCommand_def taggedCommand_def SpriteScaleFactor_def)

lemma tagged_rendered:
  assumes "Files (character st) elem =
             Some \<lparr> ACT = \<lparr> Actions = [a] \<rparr>, SPR = taggedSprite n \<rparr>"
    and "Frames a = [f]" and "Layers f = [fixtureLayer]" and "DurationMilliseconds a = 7"
    and "chainPosition f elem (offset st) = (0, 0)"
  shows "renderAttachment fixtureExternals dt now elem st =
           Inr \<lparr> character = (character st) \<lparr> AnimationDelay := 7000000 \<rparr>,
                 offset = (if Positions f = [] then offset st
                           else (real_of_int (fst (Positions f ! 0)),
                                 real_of_int (snd (Positions f ! 0)))),
                 sprite = sprite st @
                   [taggedCommand n \<lparr> cmdPosition := CharPosition (character st) \<rparr>] \<rparr>"
proof -
  have r: "resolveFrame fixtureExternals dt now (character st) [a] = Inr (a, f)"
    using assms(2) by (rule resolveFrame_single)
  have "renderFrame fixtureExternals elem a f (taggedSprite n) st =
          Inr \<lparr> character = (character st) \<lparr> AnimationDelay := 7000000 \<rparr>,
                offset = (if Positions f = [] then offset st
                          else (real_of_int (fst (Positions f ! 0)),
                                real_of_int (snd (Positions f ! 0)))),
                sprite = sprite st @
                  [taggedCommand n \<lparr> cmdPosition := CharPosition (character st) \<rparr>] \<rparr>"
    using assms(3,4,5)
    by (simp add: renderFrame_def tagged_layer_rendered Let_def Millisecond_def
          del: renderLayers.simps)
  then show ?thesis
    using assms(1) r by (simp add: renderAttachment_def andThen_def)
qed

lemma order_behind: "behind fixtureExternals orderCharacter"
  by (simp add: behind_def direction_def fixtureExternals_def fixtureCharacter_def
        orderCharacter_def fixtureTable_def FixedCameraDirection_def)

lemma order_front: "\<not> behind fixtureExternals orderFrontCharacter"
  by (simp add: behind_def direction_def fixtureExternals_def fixtureCharacter_def
        orderCharacter_def orderFrontCharacter_def fixtureTable_def FixedCameraDirection_def)

lemmas order_facts =
  orderCharacter_def orderFrontCharacter_def fixtureCharacter_def headAction_def
  bodyAction_def headFrame_def bodyFrame_def chainPosition_def taggedCommand_def
  fixtureCommand_def

lemma order_rendered:
  "renderCharacter fixtureExternals 0 fixtureClock orderCharacter [] = Inr orderDone"
proof -
  let ?c = "orderCharacter \<lparr> AnimationDelay := 7000000 \<rparr>"
  let ?s0 = "\<lparr> character = orderCharacter, offset = (0, 0), sprite = [] \<rparr>"
  let ?s1 = "\<lparr> character = ?c, offset = (0, 0), sprite = [taggedCommand 0] \<rparr>"
  let ?s2 = "\<lparr> character = ?c, offset = (0, 0),
               sprite = [taggedCommand 0, taggedCommand 1] \<rparr>"
  let ?s3 = "\<lparr> character = ?c, offset = (10, 5),
               sprite = [taggedCommand 0, taggedCommand 1, taggedCommand 2] \<rparr>"
  have shadow: "renderAttachment fixtureExternals 0 (fixtureClock AttachmentShadow)
                  AttachmentShadow ?s0 = Inr ?s1"
    using tagged_rendered [of ?s0 AttachmentShadow headAction 0 headFrame 0
            "fixtureClock AttachmentShadow"]
    by (simp add: order_facts)
  have shield: "renderAttachment fixtureExternals 0 (fixtureClock AttachmentShield)
                  AttachmentShield ?s1 = Inr ?s2"
    using tagged_rendered [of ?s1 AttachmentShield headAction 1 headFrame 0
            "fixtureClock AttachmentShield"]
    by (simp add: order_facts)
  have body: "renderAttachment fixtureExternals 0 (fixtureClock AttachmentBody)
                AttachmentBody ?s2 = Inr ?s3"
    using tagged_rendered [of ?s2 AttachmentBody bodyAction 2 bodyFrame 0
            "fixtureClock AttachmentBody"]
    by (simp add: order_facts)
  have head: "renderAttachment fixtureExternals 0 (fixtureClock AttachmentHead)
                AttachmentHead ?s3 = Inr orderDone"
    using tagged_rendered [of ?s3 AttachmentHead headAction 3 headFrame 0
            "fixtureClock AttachmentHead"]
    by (simp add: order_facts orderDone_def)
  have k: "ActionIndex orderCharacter \<noteq> Dead fixtureExternals"
    "ActionIndex orderCharacter \<noteq> Sitting fixtureExternals"
    "renderShield fixtureExternals orderCharacter"
    by (simp_all add: orderCharacter_def fixtureCharacter_def fixtureExternals_def
          renderShield_def)
  show ?thesis
    unfolding renderCharacter_def
    using k order_behind by (simp add: shadow shield body head andThen_def del: One_nat_def)
qed

lemma order_front_rendered:
  "renderCharacter fixtureExternals 0 fixtureClock orderFrontCharacter [] = Inr orderFrontDone"
proof -
  let ?c = "orderFrontCharacter \<lparr> AnimationDelay := 7000000 \<rparr>"
  let ?s0 = "\<lparr> character = orderFrontCharacter, offset = (0, 0), sprite = [] \<rparr>"
  let ?s1 = "\<lparr> character = ?c, offset = (0, 0), sprite = [taggedCommand 0] \<rparr>"
  let ?s2 = "\<lparr> character = ?c, offset = (10, 5),
               sprite = [taggedCommand 0, taggedCommand 2] \<rparr>"
  let ?s3 = "\<lparr> character = ?c, offset = (10, 5),
               sprite = [taggedCommand 0, taggedCommand 2, taggedCommand 3] \<rparr>"
  have shadow: "renderAttachment fixtureExternals 0 (fixtureClock AttachmentShadow)
                  AttachmentShadow ?s0 = Inr ?s1"
    using tagged_rendered [of ?s0 AttachmentShadow headAction 0 headFrame 0
            "fixtureClock AttachmentShadow"]
    by (simp add: order_facts)
  have body: "renderAttachment fixtureExternals 0 (fixtureClock AttachmentBody)
                AttachmentBody ?s1 = Inr ?s2"
    using tagged_rendered [of ?s1 AttachmentBody bodyAction 2 bodyFrame 0
            "fixtureClock AttachmentBody"]
    by (simp add: order_facts)
  have head: "renderAttachment fixtureExternals 0 (fixtureClock AttachmentHead)
                AttachmentHead ?s2 = Inr ?s3"
    using tagged_rendered [of ?s2 AttachmentHead headAction 3 headFrame 0
            "fixtureClock AttachmentHead"]
    by (simp add: order_facts)
  have shield: "renderAttachment fixtureExternals 0 (fixtureClock AttachmentShield)
                  AttachmentShield ?s3 = Inr orderFrontDone"
    using tagged_rendered [of ?s3 AttachmentShield headAction 1 headFrame 0
            "fixtureClock AttachmentShield"]
    by (simp add: order_facts orderFrontDone_def)
  have k: "ActionIndex orderFrontCharacter \<noteq> Dead fixtureExternals"
    "ActionIndex orderFrontCharacter \<noteq> Sitting fixtureExternals"
    "renderShield fixtureExternals orderFrontCharacter"
    by (simp_all add: orderCharacter_def orderFrontCharacter_def fixtureCharacter_def
          fixtureExternals_def renderShield_def)
  show ?thesis
    unfolding renderCharacter_def
    using k order_front by (simp add: shadow shield body head andThen_def del: One_nat_def)
qed

section \<open>The claims\<close>

subsection \<open>C1: the direction resolver\<close>

text \<open>
  C1 states that for every facing value in 0..7 the combined direction index \<open>d\<close> lies
  in [0,8) and that the behind flag is true iff \<open>1 < d < 5\<close>. Line 89 compares with 6,
  not 5: at facing 5 and a camera entry of 0 the index is 5, it is in [0,8), and the
  flag is true.
\<close>

theorem behind_at_five_counterexample:
  "0 \<le> Direction fixtureCharacter \<and> Direction fixtureCharacter \<le> 7
   \<and> direction fixtureExternals fixtureCharacter = 5
   \<and> behind fixtureExternals fixtureCharacter
   \<and> \<not> (0 \<le> direction fixtureExternals fixtureCharacter
          \<and> direction fixtureExternals fixtureCharacter < 8
          \<and> (behind fixtureExternals fixtureCharacter \<longleftrightarrow>
               1 < direction fixtureExternals fixtureCharacter
               \<and> direction fixtureExternals fixtureCharacter < 5))"
  by (simp add: behind_def fixture_direction) (simp add: fixtureCharacter_def)

text \<open>
  C1 as the code has it: for every facing value in 0..7 the combined index \<open>d\<close> is the
  facing plus the camera's table entry reduced modulo 8 (the modulus is applied to the
  entry alone), it lies in [0,8) when that entry is a multiple of 8, and the behind
  flag is true iff \<open>1 < d < 6\<close>.
\<close>

theorem direction_range_behind:
  assumes "0 \<le> Direction char" and "Direction char \<le> 7"
  shows "direction K char = Direction char + DirectionTable K FixedCameraDirection smod 8
       \<and> (DirectionTable K FixedCameraDirection smod 8 = 0 \<longrightarrow>
            0 \<le> direction K char \<and> direction K char < 8)
       \<and> (behind K char \<longleftrightarrow> 1 < direction K char \<and> direction K char < 6)"
  using assms by (auto simp: direction_def behind_def)

theorem direction_range_behind_witness:
  "0 \<le> Direction fixtureCharacter \<and> Direction fixtureCharacter \<le> 7
   \<and> DirectionTable fixtureExternals FixedCameraDirection smod 8 = 0
   \<and> 0 \<le> direction fixtureExternals fixtureCharacter
   \<and> direction fixtureExternals fixtureCharacter < 8
   \<and> (behind fixtureExternals fixtureCharacter \<longleftrightarrow>
        1 < direction fixtureExternals fixtureCharacter
        \<and> direction fixtureExternals fixtureCharacter < 6)"
proof -
  have lo: "0 \<le> Direction fixtureCharacter" and hi: "Direction fixtureCharacter \<le> 7"
    by (simp_all add: fixtureCharacter_def)
  have entry: "DirectionTable fixtureExternals FixedCameraDirection smod 8 = 0"
    by (simp add: fixtureExternals_def fixtureTable_def FixedCameraDirection_def)
  show ?thesis
    using direction_range_behind [OF lo hi, of fixtureExternals] lo hi entry by simp
qed

text \<open>
  Whatever the direction table holds, the claim as stated fails at some facing value
  in 0..7: below 0 or from 8 on when the entry is not a multiple of 8 in [0,5], and at
  the index 5 otherwise.
\<close>

lemma claimed_direction_fails_for_every_table:
  "\<exists>f \<in> {0..7}.
     \<not> (0 \<le> direction K (char \<lparr> Direction := f \<rparr>)
        \<and> direction K (char \<lparr> Direction := f \<rparr>) < 8
        \<and> (behind K (char \<lparr> Direction := f \<rparr>) \<longleftrightarrow>
             1 < direction K (char \<lparr> Direction := f \<rparr>)
             \<and> direction K (char \<lparr> Direction := f \<rparr>) < 5))"
proof -
  define e where "e = DirectionTable K FixedCameraDirection smod 8"
  have d: "\<And>f. direction K (char \<lparr> Direction := f \<rparr>) = f + e"
    by (simp add: direction_def e_def)
  consider "e < 0" | "0 \<le> e \<and> e \<le> 5" | "5 < e" by linarith
  then show ?thesis
  proof cases
    case 1
    then show ?thesis by (intro bexI [of _ 0]) (simp_all add: d)
  next
    case 2
    then show ?thesis by (intro bexI [of _ "5 - e"]) (simp_all add: d behind_def)
  next
    case 3
    then show ?thesis by (intro bexI [of _ 7]) (simp_all add: d)
  qed
qed

subsection \<open>C4: the action index\<close>





text \<open>
  Go's \<^verbatim>\<open>%\<close> takes the sign of the dividend, and line 120 has no guard: outside the
  facing values 0 to 7, a character turned to the direction -1 resolves to the index
  -1, which stays -1 modulo 2, and the access panics.
\<close>

lemma actionAt_negative_index:
  "resolvedIndex fixtureExternals strayCharacter = - 1
   \<and> actionAt [bodyAction, headAction] (resolvedIndex fixtureExternals strayCharacter) =
       Inl IndexOutOfRange"
  by (simp add: stray_resolvedIndex actionAt_def signed_modulo_int_def)

subsection \<open>C5: the per-frame duration\<close>

text \<open>
  C5 states that for every frame delay, FPS multiplier and forced total duration the
  per-frame duration is the forced duration divided by the frame count when a forced
  duration is set, and the delay divided by the FPS multiplier otherwise, and is never
  less than 100. Line 123 does not divide: it multiplies the delay by the reciprocal
  of the multiplier, both rounded to binary64, and truncates. At the delay 5390 and
  the multiplier 49 the quotient is 110 and the code computes 109. Line 126 divides by
  the frame count: a forced duration with an action without frames computes no
  duration at all. And line 129 clamps through \<^verbatim>\<open>float64\<close>: the largest forced duration,
  on an action of one frame, rounds up to \<open>2 ^ 63\<close>, which the conversion back to
  \<^verbatim>\<open>int64\<close> turns into \<open>- 2 ^ 63\<close>, below 100.
\<close>

theorem reciprocal_rounding_counterexample:
  "ForcedDuration slowCharacter = 0
   \<and> Delay slowAction / FPSMultiplier slowCharacter = 110
   \<and> timeNeededForOneFrame slowAction slowCharacter = Inr 109
   \<and> ForcedDuration forcedCharacter \<noteq> 0 \<and> Frames emptyAction = []
   \<and> timeNeededForOneFrame emptyAction forcedCharacter = Inl DivideByZero
   \<and> ForcedDuration hugeCharacter = 2 ^ 63 - 1 \<and> length (Frames bodyAction) = 1
   \<and> timeNeededForOneFrame bodyAction hugeCharacter = Inr (- (2 ^ 63))"
proof -
  have "timeNeededForOneFrame emptyAction forcedCharacter = Inl DivideByZero"
    by (simp add: timeNeededForOneFrame_def emptyAction_def forcedCharacter_def
          fixtureCharacter_def)
  then show ?thesis
    by (simp add: slow_time huge_time)
       (simp add: slowAction_def slowCharacter_def forcedCharacter_def fixtureCharacter_def
          emptyAction_def hugeCharacter_def bodyAction_def)
qed

text \<open>
  C5 as the code has it: whenever no forced duration is set or the action has a frame,
  a per-frame duration is computed. It is the clamp of line 129 applied to \<open>b\<close>, where
  \<open>b\<close> is the forced duration divided by the frame count, truncated, when a forced
  duration is set, and otherwise the truncation of the product \<open>p\<close> of the delay and
  the reciprocal of the FPS multiplier, both rounded to binary64. For a delay that is
  not negative and a positive multiplier, \<open>p\<close> lies within the relative error
  \<open>2 ^ - 51\<close> of the delay divided by the multiplier (and an absolute error for the
  denormal range), and its truncation is its floor. The clamp returns the larger of
  \<open>b\<close> and 100 when \<open>b\<close> is below \<open>2 ^ 53\<close>, and the duration is never less than 100
  when no forced duration is set or the action does not have exactly one frame.
\<close>

theorem timeNeededForOneFrame_clamped:
  assumes "ForcedDuration char = 0 \<or> Frames action \<noteq> []"
  shows "\<exists>b. timeNeededForOneFrame action char = Inr (clampFloor b)
       \<and> b = (if ForcedDuration char \<noteq> 0
              then int64 (ForcedDuration char) sdiv int (length (Frames action))
              else int64_of_float (fmul (Delay action) (fdiv 1 (FPSMultiplier char))))
       \<and> (b < 2 ^ 53 \<longrightarrow> clampFloor b = max b 100)
       \<and> (ForcedDuration char = 0 \<or> length (Frames action) \<noteq> 1 \<longrightarrow> 100 \<le> clampFloor b)
       \<and> (\<forall>p. 0 \<le> Delay action \<longrightarrow> 0 < FPSMultiplier char \<longrightarrow>
              fmul (Delay action) (fdiv 1 (FPSMultiplier char)) = Some p \<longrightarrow>
              \<bar>p - Delay action / FPSMultiplier char\<bar> \<le>
                Delay action / FPSMultiplier char / 2 ^ 51 + (Delay action + 1) / 2 ^ 1074
              \<and> (p < 2 ^ 63 \<longrightarrow> int64_of_float (Some p) = \<lfloor>p\<rfloor>))"
proof -
  define b where "b = (if ForcedDuration char \<noteq> 0
              then int64 (ForcedDuration char) sdiv int (length (Frames action))
              else int64_of_float (fmul (Delay action) (fdiv 1 (FPSMultiplier char))))"
  have t: "timeNeededForOneFrame action char = Inr (clampFloor b)"
    using assms by (auto simp: timeNeededForOneFrame_def Let_def b_def)
  have "b < 2 ^ 53 \<longrightarrow> clampFloor b = max b 100" by (simp add: clampFloor_exact)
  moreover have "ForcedDuration char = 0 \<longrightarrow> 100 \<le> clampFloor b"
    using clampFloor_fmul by (simp add: b_def)
  moreover have "length (Frames action) \<noteq> 1 \<longrightarrow> 100 \<le> clampFloor b"
    using timeNeeded_range [OF t] by auto
  moreover have "\<forall>p. 0 \<le> Delay action \<longrightarrow> 0 < FPSMultiplier char \<longrightarrow>
              fmul (Delay action) (fdiv 1 (FPSMultiplier char)) = Some p \<longrightarrow>
              \<bar>p - Delay action / FPSMultiplier char\<bar> \<le>
                Delay action / FPSMultiplier char / 2 ^ 51 + (Delay action + 1) / 2 ^ 1074
              \<and> (p < 2 ^ 63 \<longrightarrow> int64_of_float (Some p) = \<lfloor>p\<rfloor>)"
    using reciprocal_product_error reciprocal_product_nonneg int64_of_float_floor by blast
  ultimately show ?thesis using t b_def by blast
qed

theorem timeNeededForOneFrame_clamped_witness:
  "(ForcedDuration slowCharacter = 0 \<or> Frames slowAction \<noteq> [])
   \<and> 0 \<le> Delay slowAction \<and> 0 < FPSMultiplier slowCharacter
   \<and> fmul (Delay slowAction) (fdiv 1 (FPSMultiplier slowCharacter)) =
       Some (7740561859543039 / 2 ^ 46)
   \<and> \<bar>7740561859543039 / 2 ^ 46 - Delay slowAction / FPSMultiplier slowCharacter\<bar> \<le>
       Delay slowAction / FPSMultiplier slowCharacter / 2 ^ 51
         + (Delay slowAction + 1) / 2 ^ 1074
   \<and> int64_of_float (Some (7740561859543039 / 2 ^ 46)) = 109
   \<and> timeNeededForOneFrame slowAction slowCharacter = Inr 109
   \<and> (ForcedDuration quickCharacter = 0 \<or> Frames bodyAction \<noteq> [])
   \<and> int64_of_float (fmul (Delay bodyAction) (fdiv 1 (FPSMultiplier quickCharacter))) = 75
   \<and> timeNeededForOneFrame bodyAction quickCharacter = Inr 100
   \<and> (ForcedDuration forcedCharacter = 0 \<or> Frames bodyAction \<noteq> [])
   \<and> int64 (ForcedDuration forcedCharacter) sdiv int (length (Frames bodyAction)) = 500
   \<and> timeNeededForOneFrame bodyAction forcedCharacter = Inr 500"
proof -
  have h1: "ForcedDuration slowCharacter = 0 \<or> Frames slowAction \<noteq> []"
    by (simp add: slowAction_def)
  have h2: "ForcedDuration quickCharacter = 0 \<or> Frames bodyAction \<noteq> []"
    by (simp add: bodyAction_def)
  have h3: "ForcedDuration forcedCharacter = 0 \<or> Frames bodyAction \<noteq> []"
    by (simp add: bodyAction_def)
  have f1: "ForcedDuration slowCharacter = 0" "ForcedDuration quickCharacter = 0"
    "ForcedDuration forcedCharacter \<noteq> 0"
    by (simp_all add: slowCharacter_def quickCharacter_def forcedCharacter_def
          fixtureCharacter_def)
  have s: "0 \<le> Delay slowAction" "0 < FPSMultiplier slowCharacter"
    by (simp_all add: slowAction_def slowCharacter_def fixtureCharacter_def)
  have p: "fmul (Delay slowAction) (fdiv 1 (FPSMultiplier slowCharacter)) =
             Some (7740561859543039 / 2 ^ 46)"
    by (simp add: slowAction_def slowCharacter_def fixtureCharacter_def product_5390_49)
  have v: "int64_of_float (Some (7740561859543039 / 2 ^ 46)) = 109"
    by (simp add: int64_of_float_def towardZero_def)
  have b2: "int64_of_float (fmul (Delay bodyAction) (fdiv 1 (FPSMultiplier quickCharacter))) = 75"
    by (simp add: bodyAction_def quickCharacter_def fixtureCharacter_def reciprocal_2 fmul_def
          float64_numeral int64_of_float_def towardZero_def)
  have b3: "int64 (ForcedDuration forcedCharacter) sdiv int (length (Frames bodyAction)) = 500"
    by (simp add: forcedCharacter_def fixtureCharacter_def bodyAction_def int64_small sdiv_one)
  obtain b where
    t: "timeNeededForOneFrame slowAction slowCharacter = Inr (clampFloor b)"
    and b: "b = int64_of_float (fmul (Delay slowAction) (fdiv 1 (FPSMultiplier slowCharacter)))"
    and c: "b < 2 ^ 53 \<longrightarrow> clampFloor b = max b 100"
    and e: "\<forall>p. 0 \<le> Delay slowAction \<longrightarrow> 0 < FPSMultiplier slowCharacter \<longrightarrow>
              fmul (Delay slowAction) (fdiv 1 (FPSMultiplier slowCharacter)) = Some p \<longrightarrow>
              \<bar>p - Delay slowAction / FPSMultiplier slowCharacter\<bar> \<le>
                Delay slowAction / FPSMultiplier slowCharacter / 2 ^ 51
                  + (Delay slowAction + 1) / 2 ^ 1074
              \<and> (p < 2 ^ 63 \<longrightarrow> int64_of_float (Some p) = \<lfloor>p\<rfloor>)"
    using timeNeededForOneFrame_clamped [OF h1] f1(1) by auto
  have near: "\<bar>7740561859543039 / 2 ^ 46 - Delay slowAction / FPSMultiplier slowCharacter\<bar> \<le>
       Delay slowAction / FPSMultiplier slowCharacter / 2 ^ 51
         + (Delay slowAction + 1) / 2 ^ 1074"
    using e s p by blast
  have "b = 109" using b p v by simp
  then have slow: "timeNeededForOneFrame slowAction slowCharacter = Inr 109"
    using t c by simp
  have quick: "timeNeededForOneFrame bodyAction quickCharacter = Inr 100"
    using timeNeededForOneFrame_clamped [OF h2] f1 b2 by auto
  have forced: "timeNeededForOneFrame bodyAction forcedCharacter = Inr 500"
    using timeNeededForOneFrame_clamped [OF h3] f1 b3 by auto
  show ?thesis using h1 h2 h3 s p near v slow quick forced b2 b3 by simp
qed

subsection \<open>C6: actions of three frames\<close>

text \<open>
  C6: for every action whose frame count is exactly 3 and every elapsed time, play
  mode, FPS multiplier and forced duration, the selected frame index is 0.
\<close>

theorem three_frames_index_0:
  assumes "length (Frames action) = 3"
  shows "frameIndexAt action char elapsed = Inr 0"
  using assms
  by (auto simp: frameIndexAt_def timeNeededForOneFrame_def andThen_def Let_def
        split: ActionPlayMode.splits)

theorem three_frames_index_0_witness:
  "length (Frames fidgetAction) = 3 \<and> frameIndexAt fidgetAction fixtureCharacter 250 = Inr 0"
proof -
  have h: "length (Frames fidgetAction) = 3" by (simp add: fidgetAction_def)
  show ?thesis using three_frames_index_0 [OF h] h by simp
qed

subsection \<open>C7: the play mode Repeat\<close>

text \<open>
  C7 states that under the play mode Repeat, for every action with frame count \<open>N > 0\<close>
  and every elapsed time \<open>e \<ge> 0\<close>, the selected frame index is
  \<open>(e div d) mod N\<close> for the per-frame duration \<open>d\<close>, and so is periodic with period
  \<open>N * d\<close>. Line 141 overrides the index of an action of three frames: at
  \<open>e = 100\<close> and \<open>d = 100\<close> the formula gives 1 and the code selects 0.
\<close>

theorem repeat_three_frames_counterexample:
  "PlayMode fixtureCharacter = Repeat \<and> length (Frames fidgetAction) = 3
   \<and> timeNeededForOneFrame fidgetAction fixtureCharacter = Inr 100
   \<and> frameIndexAt fidgetAction fixtureCharacter 100 = Inr 0
   \<and> frameIndexAt fidgetAction fixtureCharacter 100 \<noteq>
       Inr ((100 div 100) mod int (length (Frames fidgetAction)))"
proof -
  have h: "length (Frames fidgetAction) = 3" by (simp add: fidgetAction_def)
  have i: "frameIndexAt fidgetAction fixtureCharacter 100 = Inr 0"
    by (simp add: frameIndexAt_def fidget_time andThen_def h split: ActionPlayMode.splits)
  have m: "PlayMode fixtureCharacter = Repeat" by (simp add: fixtureCharacter_def)
  show ?thesis using h i m by (simp add: fidget_time)
qed

text \<open>
  C7 as the code has it: under the play mode Repeat, for every action with frame count
  \<open>N > 0\<close> and every elapsed time \<open>e \<ge> 0\<close>, a per-frame duration \<open>d\<close> is computed,
  the selected frame index is \<open>(e div d) mod N\<close> when \<open>N\<close> is not 3 and 0 when \<open>N\<close>
  is 3, and advancing the elapsed time by \<open>N * d\<close> selects the same index. The
  duration is at least 100, unless the action has a single frame and the clamp of
  line 129 has left the range of int64.
\<close>

theorem frameIndexAt_Repeat_periodic:
  assumes "PlayMode char = Repeat" and "Frames action \<noteq> []" and "0 \<le> e"
  shows "\<exists>d. timeNeededForOneFrame action char = Inr d \<and>
           (100 \<le> d \<or> d = MinInt64 \<and> length (Frames action) = 1) \<and>
           frameIndexAt action char e =
             Inr (if length (Frames action) = 3 then 0
                  else (e div d) mod int (length (Frames action))) \<and>
           frameIndexAt action char (e + int (length (Frames action)) * d) =
             frameIndexAt action char e"
proof -
  obtain t where t: "timeNeededForOneFrame action char = Inr t"
    using timeNeeded_total [of char action] assms(2) by blast
  have range: "100 \<le> t \<or> t = MinInt64 \<and> length (Frames action) = 1"
    using timeNeeded_range [OF t] .
  let ?N = "int (length (Frames action))"
  have "frameIndexAt action char (e + ?N * t) = frameIndexAt action char e"
  proof (cases "100 \<le> t")
    case True
    then have tpos: "0 < t" by simp
    have e': "0 \<le> e + ?N * t" using assms(3) tpos by simp
    have "(e + ?N * t) div t = e div t + ?N" using tpos by simp
    then have "((e + ?N * t) div t) mod ?N = (e div t) mod ?N" by simp
    then show ?thesis
      using frameIndexAt_Repeat [OF assms(1,2) e' t] frameIndexAt_Repeat [OF assms(1,2,3) t]
      by simp
  next
    case False
    then have one: "length (Frames action) = 1" using range by simp
    show ?thesis using frameIndexAt_single [OF one t] by simp
  qed
  then show ?thesis using t range frameIndexAt_Repeat [OF assms(1,2,3) t] by blast
qed

theorem frameIndexAt_Repeat_periodic_witness:
  "PlayMode fixtureCharacter = Repeat \<and> Frames walkAction \<noteq> [] \<and> (0::int) \<le> 250
   \<and> frameIndexAt walkAction fixtureCharacter 250 = Inr 2
   \<and> frameIndexAt walkAction fixtureCharacter (250 + 4 * 100) = Inr 2"
proof -
  have m: "PlayMode fixtureCharacter = Repeat" by (simp add: fixtureCharacter_def)
  have f: "Frames walkAction \<noteq> []" by (simp add: walkAction_def)
  have e: "(0::int) \<le> 250" by simp
  have n: "length (Frames walkAction) = 4" by (simp add: walkAction_def)
  show ?thesis
    using frameIndexAt_Repeat_periodic [OF m f e] m f by (auto simp: walk_time n)
qed

subsection \<open>C9: the other play modes\<close>

text \<open>
  C9 states that for every play mode other than Repeat and every action whose frame
  count is not 3 the selected frame index is 0 whatever the elapsed time, so that the
  first frame is rendered rather than the tick failing. An action without frames has
  a frame count that is not 3: with a forced duration line 126 divides by zero before
  an index is selected, and without one the index 0 is selected and no frame is there.
\<close>

theorem no_frames_counterexample:
  "PlayMode forcedHoldCharacter \<noteq> Repeat \<and> PlayMode holdCharacter \<noteq> Repeat
   \<and> length (Frames emptyAction) \<noteq> 3
   \<and> frameIndexAt emptyAction forcedHoldCharacter 250 = Inl DivideByZero
   \<and> frameIndexAt emptyAction holdCharacter 250 = Inr 0
   \<and> frameAt emptyAction 0 = Inl IndexOutOfRange"
  by (simp add: frameIndexAt_def timeNeededForOneFrame_def andThen_def frameAt_def
        emptyAction_def holdCharacter_def forcedHoldCharacter_def forcedCharacter_def
        fixtureCharacter_def)

text \<open>
  C9 as the code has it: for every play mode other than Repeat and every action whose
  frame count is not 3, and is not 0 when a forced duration is set, the selected frame
  index is 0 whatever the elapsed time; when the action has a frame, the lookup of
  that index returns the first frame.
\<close>

theorem frameIndexAt_other_play_mode:
  assumes "PlayMode char \<noteq> Repeat" and "length (Frames action) \<noteq> 3"
    and "ForcedDuration char = 0 \<or> Frames action \<noteq> []"
  shows "frameIndexAt action char elapsed = Inr 0
       \<and> (Frames action \<noteq> [] \<longrightarrow> frameAt action 0 = Inr (Frames action ! 0))"
proof -
  obtain t where t: "timeNeededForOneFrame action char = Inr t"
    using timeNeeded_total [OF assms(3)] by blast
  obtain n where n: "PlayMode char = OtherPlayMode n"
    using assms(1) by (cases "PlayMode char") auto
  show ?thesis using t n assms(2) by (simp add: frameIndexAt_def andThen_def frameAt_def)
qed

theorem frameIndexAt_other_play_mode_witness:
  "PlayMode holdCharacter \<noteq> Repeat \<and> length (Frames walkAction) \<noteq> 3
   \<and> (ForcedDuration holdCharacter = 0 \<or> Frames walkAction \<noteq> [])
   \<and> frameIndexAt walkAction holdCharacter 250 = Inr 0
   \<and> frameAt walkAction 0 = Inr bodyFrame"
proof -
  have m: "PlayMode holdCharacter \<noteq> Repeat" by (simp add: holdCharacter_def)
  have n: "length (Frames walkAction) \<noteq> 3" by (simp add: walkAction_def)
  have f: "ForcedDuration holdCharacter = 0 \<or> Frames walkAction \<noteq> []"
    by (simp add: walkAction_def)
  have "Frames walkAction \<noteq> []" "Frames walkAction ! 0 = bodyFrame"
    by (simp_all add: walkAction_def)
  then show ?thesis
    using frameIndexAt_other_play_mode [OF m n f, of 250] m n f by simp
qed

subsection \<open>C10: the frame lookup\<close>

text \<open>
  C10: whenever the elapsed time (the milliseconds since the animation started, minus
  the delta of the tick) is not negative and the action has \<open>N > 0\<close> frames, a frame
  index is selected in every play mode, it lies in \<open>[0, N)\<close>, and the lookup of the
  frame succeeds.
\<close>

theorem frame_lookup_in_range:
  assumes "0 \<le> elapsedTime now dt char" and "Frames action \<noteq> []"
  shows "\<exists>i. frameIndexAt action char (elapsedTime now dt char) = Inr i \<and>
           0 \<le> i \<and> i < int (length (Frames action)) \<and>
           frameAt action i = Inr (Frames action ! nat i)"
proof -
  obtain t where t: "timeNeededForOneFrame action char = Inr t"
    using timeNeeded_total [of char action] assms(2) by blast
  have N: "0 < int (length (Frames action))" using assms(2) by simp
  show ?thesis
  proof (cases "PlayMode char")
    case Repeat
    have "frameIndexAt action char (elapsedTime now dt char) =
            Inr (if length (Frames action) = 3 then 0
                 else (elapsedTime now dt char div t) mod int (length (Frames action)))"
      using frameIndexAt_Repeat [OF Repeat assms(2,1) t] .
    moreover have "0 \<le> (elapsedTime now dt char div t) mod int (length (Frames action))"
      "(elapsedTime now dt char div t) mod int (length (Frames action)) <
         int (length (Frames action))"
      using N by simp_all
    ultimately show ?thesis using N by (auto simp: frameAt_def)
  next
    case (OtherPlayMode n)
    then have "frameIndexAt action char (elapsedTime now dt char) = Inr 0"
      using t by (simp add: frameIndexAt_def andThen_def)
    then show ?thesis using N by (simp add: frameAt_def)
  qed
qed

theorem frame_lookup_in_range_witness:
  "0 \<le> elapsedTime 1000000000 0 fixtureCharacter \<and> Frames walkAction \<noteq> []
   \<and> frameIndexAt walkAction fixtureCharacter (elapsedTime 1000000000 0 fixtureCharacter) =
       Inr 2
   \<and> frameAt walkAction 2 = Inr bodyFrame"
proof -
  have e: "0 \<le> elapsedTime 1000000000 0 fixtureCharacter" by (simp add: fixture_elapsed)
  have f: "Frames walkAction \<noteq> []" by (simp add: walkAction_def)
  have m: "PlayMode fixtureCharacter = Repeat" by (simp add: fixtureCharacter_def)
  have n: "length (Frames walkAction) = 4" by (simp add: walkAction_def)
  have i: "frameIndexAt walkAction fixtureCharacter 1000 = Inr 2"
    using frameIndexAt_Repeat [OF m f _ walk_time, of 1000] by (simp add: n)
  have l: "frameAt walkAction 2 = Inr bodyFrame"
    by (simp add: frameAt_def walkAction_def)
  show ?thesis
    using frame_lookup_in_range [OF e f] e f i l by (simp add: fixture_elapsed)
qed

subsection \<open>C2: offset chaining\<close>

text \<open>
  C2 states that when a body whose resolved frame has the anchor (10, 5) is followed
  in the same tick by a head whose resolved frame has no Positions entry, every
  command emitted for the head is shifted by exactly (10, 5) relative to the raw layer
  positions. Lines 151 to 158 apply the accumulator only to a frame that has a
  Positions entry of its own: the head below is drawn after the body has left (10, 5)
  in the accumulator, and its command carries the raw layer position, not shifted.
\<close>

theorem head_shift_counterexample:
  "resolveFrame fixtureExternals 0 1000000000 (character fixtureState)
     (Actions (ACT bodyFiles)) = Inr (bodyAction, bodyFrame)
   \<and> Positions bodyFrame ! 0 = (10, 5)
   \<and> renderAttachment fixtureExternals 0 1000000000 AttachmentBody fixtureState =
       Inr bodyDone
   \<and> offset bodyDone = (10, 5)
   \<and> resolveFrame fixtureExternals 0 1000000000 (character bodyDone)
       (Actions (ACT headFiles)) = Inr (headAction, headFrame)
   \<and> Positions headFrame = []
   \<and> renderAttachment fixtureExternals 0 1000000000 AttachmentHead bodyDone =
       Inr headDone
   \<and> map cmdOffset (drop (length (sprite bodyDone)) (sprite headDone)) =
       map (shiftedOffset fixtureExternals (0, 0)) (drawnLayers headFrame)
   \<and> map cmdOffset (drop (length (sprite bodyDone)) (sprite headDone)) \<noteq>
       map (shiftedOffset fixtureExternals (10, 5)) (drawnLayers headFrame)"
proof -
  have b: "resolveFrame fixtureExternals 0 1000000000 (character fixtureState)
             (Actions (ACT bodyFiles)) = Inr (bodyAction, bodyFrame)"
    using body_resolved by (simp add: fixtureState_def bodyFiles_def)
  have h: "resolveFrame fixtureExternals 0 1000000000 (character bodyDone)
             (Actions (ACT headFiles)) = Inr (headAction, headFrame)"
    using head_resolved by (simp add: headFiles_def)
  have p: "Positions bodyFrame ! 0 = (10, 5)" "Positions headFrame = []"
    "offset bodyDone = (10, 5)"
    by (simp_all add: bodyFrame_def headFrame_def bodyDone_def)
  have d: "drawnLayers headFrame = [fixtureLayer]"
    by (simp add: drawnLayers_def headFrame_def fixtureLayer_def)
  have e: "map cmdOffset (drop (length (sprite bodyDone)) (sprite headDone)) =
             [(75 / 8, 25 / 2)]"
    by (simp add: bodyDone_def headDone_def fixtureCommand_def)
  have z: "shiftedOffset fixtureExternals (0, 0) fixtureLayer = (75 / 8, 25 / 2)"
    by (simp add: shiftedOffset_def fixtureExternals_def fixtureLayer_def
          SpriteScaleFactor_def)
  have s: "shiftedOffset fixtureExternals (10, 5) fixtureLayer = (325 / 8, 225 / 8)"
    by (simp add: shiftedOffset_def fixtureExternals_def fixtureLayer_def
          SpriteScaleFactor_def)
  show ?thesis
    using b h p body_rendered head_rendered by (simp add: d e z s)
qed

text \<open>
  C2 as the code has it: when a body whose resolved frame has the anchor (10, 5) is
  followed in the same tick by a head whose resolved frame has no Positions entry,
  every command emitted for the head carries the raw layer position with no shift
  (scaled to world units), whatever the accumulator holds: the accumulator is applied
  only to a head frame that has a Positions entry of its own.
\<close>

theorem head_without_anchor_not_shifted:
  assumes "Files (character st) AttachmentHead = Some files"
    and "Actions (ACT files) \<noteq> []"
    and "resolveFrame K dt now (character st) (Actions (ACT files)) = Inr (action, frame)"
    and "Positions frame = []"
    and "renderAttachment K dt now AttachmentHead st = Inr st'"
  shows "\<exists>new. sprite st' = sprite st @ new \<and>
           map cmdOffset new = map (shiftedOffset K (0, 0)) (drawnLayers frame)"
proof -
  have "renderFrame K AttachmentHead action frame (SPR files) st = Inr st'"
    using renderAttachment_resolved [OF assms(1,2,3)] assms(5) by simp
  moreover have "chainPosition frame AttachmentHead (offset st) = (0, 0)"
    using assms(4) by (simp add: chainPosition_def)
  ultimately show ?thesis using renderFrame_offsets by fastforce
qed

theorem head_without_anchor_not_shifted_witness:
  "Files (character bodyDone) AttachmentHead = Some headFiles
   \<and> Actions (ACT headFiles) \<noteq> []
   \<and> resolveFrame fixtureExternals 0 1000000000 (character bodyDone)
       (Actions (ACT headFiles)) = Inr (headAction, headFrame)
   \<and> Positions headFrame = []
   \<and> renderAttachment fixtureExternals 0 1000000000 AttachmentHead bodyDone = Inr headDone
   \<and> offset bodyDone = (10, 5)
   \<and> (\<exists>new. sprite headDone = sprite bodyDone @ new \<and>
         map cmdOffset new =
           map (shiftedOffset fixtureExternals (0, 0)) (drawnLayers headFrame))"
proof -
  have f: "Files (character bodyDone) AttachmentHead = Some headFiles"
    by (simp add: bodyDone_def fixtureCharacter_def)
  have a: "Actions (ACT headFiles) \<noteq> []" by (simp add: headFiles_def)
  have r: "resolveFrame fixtureExternals 0 1000000000 (character bodyDone)
             (Actions (ACT headFiles)) = Inr (headAction, headFrame)"
    using head_resolved by (simp add: headFiles_def)
  have p: "Positions headFrame = []" by (simp add: headFrame_def)
  have o: "offset bodyDone = (10, 5)" by (simp add: bodyDone_def)
  show ?thesis
    using head_without_anchor_not_shifted [OF f a r p head_rendered] f a r p o head_rendered
    by blast
qed

subsection \<open>C3: the draw order\<close>

text \<open>
  C3: for every entity with a shield equipped and the action kind StandBy, the
  commands the entity emits in a tick are those of its attachments in the order
  Shadow, Shield, Body, Head when the behind flag is true, and in the order Shadow,
  Body, Head, Shield when it is false: all the commands of an earlier attachment, one
  for every drawn layer of its frame, come before those of a later one, after the
  commands of the entities rendered earlier. StandBy, Dead and Sitting are distinct
  action kinds.
\<close>

theorem draw_order_with_shield:
  assumes "HasShield char" and "ActionIndex char = StandBy K"
    and "StandBy K \<noteq> Dead K" and "StandBy K \<noteq> Sitting K"
    and "renderCharacter K dt now char cmds = Inr st'"
  shows "sprite st' = cmds @
           commandsInOrder K dt now char
             (if behind K char
              then [AttachmentShadow, AttachmentShield, AttachmentBody, AttachmentHead]
              else [AttachmentShadow, AttachmentBody, AttachmentHead, AttachmentShield])
             (0, 0)"
proof -
  let ?order = "if behind K char
              then [AttachmentShadow, AttachmentShield, AttachmentBody, AttachmentHead]
              else [AttachmentShadow, AttachmentBody, AttachmentHead, AttachmentShield]"
  have "renderAttachments K dt now ?order
          \<lparr> character = char, offset = (0, 0), sprite = cmds \<rparr> = Inr st'"
    using renderCharacter_sequence [OF assms(1,2,3,4), of dt now cmds] assms(5) by simp
  then show ?thesis using renderAttachments_emits by fastforce
qed

theorem draw_order_with_shield_witness:
  "HasShield orderCharacter \<and> ActionIndex orderCharacter = StandBy fixtureExternals
   \<and> StandBy fixtureExternals \<noteq> Dead fixtureExternals
   \<and> StandBy fixtureExternals \<noteq> Sitting fixtureExternals
   \<and> behind fixtureExternals orderCharacter
   \<and> renderCharacter fixtureExternals 0 fixtureClock orderCharacter [] = Inr orderDone
   \<and> commandsInOrder fixtureExternals 0 fixtureClock orderCharacter
       [AttachmentShadow, AttachmentShield, AttachmentBody, AttachmentHead] (0, 0) =
       [taggedCommand 0, taggedCommand 1, taggedCommand 2, taggedCommand 3]
   \<and> map Texture (sprite orderDone) = [0, 1, 2, 3]
   \<and> HasShield orderFrontCharacter
   \<and> ActionIndex orderFrontCharacter = StandBy fixtureExternals
   \<and> \<not> behind fixtureExternals orderFrontCharacter
   \<and> renderCharacter fixtureExternals 0 fixtureClock orderFrontCharacter [] =
       Inr orderFrontDone
   \<and> commandsInOrder fixtureExternals 0 fixtureClock orderFrontCharacter
       [AttachmentShadow, AttachmentBody, AttachmentHead, AttachmentShield] (0, 0) =
       [taggedCommand 0, taggedCommand 2, taggedCommand 3, taggedCommand 1]
   \<and> map Texture (sprite orderFrontDone) = [0, 2, 3, 1]"
proof -
  have s: "HasShield orderCharacter" "HasShield orderFrontCharacter"
    by (simp_all add: orderCharacter_def orderFrontCharacter_def fixtureCharacter_def)
  have a: "ActionIndex orderCharacter = StandBy fixtureExternals"
    "ActionIndex orderFrontCharacter = StandBy fixtureExternals"
    by (simp_all add: orderCharacter_def orderFrontCharacter_def fixtureCharacter_def
          fixtureExternals_def)
  have d: "StandBy fixtureExternals \<noteq> Dead fixtureExternals"
    "StandBy fixtureExternals \<noteq> Sitting fixtureExternals"
    by (simp_all add: fixtureExternals_def)
  have t: "map Texture (sprite orderDone) = [0, 1, 2, 3]"
    "map Texture (sprite orderFrontDone) = [0, 2, 3, 1]"
    by (simp_all add: orderDone_def orderFrontDone_def taggedCommand_def)
  have rear: "commandsInOrder fixtureExternals 0 fixtureClock orderCharacter
       [AttachmentShadow, AttachmentShield, AttachmentBody, AttachmentHead] (0, 0) =
       [taggedCommand 0, taggedCommand 1, taggedCommand 2, taggedCommand 3]"
    using draw_order_with_shield [OF s(1) a(1) d order_rendered] order_behind
    by (simp add: orderDone_def)
  have front: "commandsInOrder fixtureExternals 0 fixtureClock orderFrontCharacter
       [AttachmentShadow, AttachmentBody, AttachmentHead, AttachmentShield] (0, 0) =
       [taggedCommand 0, taggedCommand 2, taggedCommand 3, taggedCommand 1]"
    using draw_order_with_shield [OF s(2) a(2) d order_front_rendered] order_front
    by (simp add: orderFrontDone_def)
  show ?thesis
    using s a d t order_behind order_front order_rendered order_front_rendered rear front
    by simp
qed

subsection \<open>C8: the recorded animation delay\<close>

text \<open>
  C8 states that after an attachment is rendered with a frame that has a layer, the
  animation delay recorded on the entity is the per-frame duration the animation
  clock computed, converted to a duration. Line 177 records the DurationMilliseconds
  field of the action instead: the same body records the same delay for a character
  whose per-frame duration is 150 and for one whose forced duration makes it 500.
\<close>

theorem animation_delay_counterexample:
  "resolveFrame fixtureExternals 0 1000000000 (character fixtureState)
     (Actions (ACT bodyFiles)) = Inr (bodyAction, bodyFrame)
   \<and> resolveFrame fixtureExternals 0 1000000000 (character forcedState)
       (Actions (ACT bodyFiles)) = Inr (bodyAction, bodyFrame)
   \<and> Layers bodyFrame \<noteq> []
   \<and> renderAttachment fixtureExternals 0 1000000000 AttachmentBody fixtureState =
       Inr bodyDone
   \<and> timeNeededForOneFrame bodyAction (character fixtureState) = Inr 150
   \<and> AnimationDelay (character bodyDone) = durationOfMilliseconds 7
   \<and> AnimationDelay (character bodyDone) \<noteq> durationOfMilliseconds 150
   \<and> renderAttachment fixtureExternals 0 1000000000 AttachmentBody forcedState =
       Inr forcedDone
   \<and> timeNeededForOneFrame bodyAction (character forcedState) = Inr 500
   \<and> AnimationDelay (character forcedDone) = durationOfMilliseconds 7
   \<and> AnimationDelay (character forcedDone) \<noteq> durationOfMilliseconds 500"
proof -
  have b: "resolveFrame fixtureExternals 0 1000000000 (character fixtureState)
             (Actions (ACT bodyFiles)) = Inr (bodyAction, bodyFrame)"
    using body_resolved by (simp add: fixtureState_def bodyFiles_def)
  have f: "resolveFrame fixtureExternals 0 1000000000 (character forcedState)
             (Actions (ACT bodyFiles)) = Inr (bodyAction, bodyFrame)"
    using forced_resolved by (simp add: forcedState_def bodyFiles_def)
  have l: "Layers bodyFrame \<noteq> []" by (simp add: bodyFrame_def)
  have t: "timeNeededForOneFrame bodyAction (character fixtureState) = Inr 150"
    "timeNeededForOneFrame bodyAction (character forcedState) = Inr 500"
    using body_time forced_time by (simp_all add: fixtureState_def forcedState_def)
  have d: "AnimationDelay (character bodyDone) = 7000000"
    "AnimationDelay (character forcedDone) = 7000000"
    by (simp_all add: bodyDone_def forcedDone_def)
  show ?thesis
    using b f l t body_rendered forced_rendered
    by (simp add: d durationOfMilliseconds_def Millisecond_def)
qed

text \<open>
  C8 as the code has it: after an attachment is rendered with a frame that has at
  least one layer, the animation delay recorded on the entity is the
  DurationMilliseconds field of the active action, converted to a duration; the
  per-frame duration of the animation clock does not enter it.
\<close>

theorem animation_delay_recorded:
  assumes "Files (character st) elem = Some files"
    and "Actions (ACT files) \<noteq> []"
    and "resolveFrame K dt now (character st) (Actions (ACT files)) = Inr (action, frame)"
    and "Layers frame \<noteq> []"
    and "renderAttachment K dt now elem st = Inr st'"
  shows "AnimationDelay (character st') = durationOfMilliseconds (DurationMilliseconds action)"
proof -
  have "renderFrame K elem action frame (SPR files) st = Inr st'"
    using renderAttachment_resolved [OF assms(1,2,3)] assms(5) by simp
  then show ?thesis
    using renderFrame_delay assms(4) by (simp add: durationOfMilliseconds_def)
qed

theorem animation_delay_recorded_witness:
  "Files (character forcedState) AttachmentBody = Some bodyFiles
   \<and> Actions (ACT bodyFiles) \<noteq> []
   \<and> resolveFrame fixtureExternals 0 1000000000 (character forcedState)
       (Actions (ACT bodyFiles)) = Inr (bodyAction, bodyFrame)
   \<and> Layers bodyFrame \<noteq> []
   \<and> renderAttachment fixtureExternals 0 1000000000 AttachmentBody forcedState =
       Inr forcedDone
   \<and> DurationMilliseconds bodyAction = 7
   \<and> AnimationDelay (character forcedDone) = durationOfMilliseconds 7"
proof -
  have f: "Files (character forcedState) AttachmentBody = Some bodyFiles"
    by (simp add: forcedState_def forcedCharacter_def fixtureCharacter_def)
  have a: "Actions (ACT bodyFiles) \<noteq> []" by (simp add: bodyFiles_def)
  have r: "resolveFrame fixtureExternals 0 1000000000 (character forcedState)
             (Actions (ACT bodyFiles)) = Inr (bodyAction, bodyFrame)"
    using forced_resolved by (simp add: forcedState_def bodyFiles_def)
  have l: "Layers bodyFrame \<noteq> []" by (simp add: bodyFrame_def)
  have m: "DurationMilliseconds bodyAction = 7" by (simp add: bodyAction_def)
  show ?thesis
    using animation_delay_recorded [OF f a r l forced_rendered] f a r l m forced_rendered
    by simp
qed

end
